theory Spec2Isabelle
  imports Complex_Main "HOL-Library.Sublist"
begin

section \<open>Financial field extraction of scan\_lbc: a shallow embedding\<close>

text \<open>
  This theory embeds the extraction core of \<^verbatim>\<open>scripts/scan_lbc.py\<close>: the amount
  normaliser \<^verbatim>\<open>parse_amount\<close>, the keyword-window search
  \<^verbatim>\<open>parse_amounts_near_keyword\<close>, the period detector
  \<^verbatim>\<open>detect_period_from_snippet\<close> and the field cascades and yield computation of
  \<^verbatim>\<open>parse_ad_page\<close>.

  Modelling conventions.
  \<^item> A Python \<^verbatim>\<open>str\<close> is a list of code points (\<open>int list\<close>), so that lengths and
    slices count what Python counts. ASCII literals are written \<open>u ''...''\<close>.
  \<^item> A Python \<^verbatim>\<open>float\<close> is modelled by the exact rational it denotes (\<open>rat\<close>); the
    rounding error of IEEE-754 operations, infinities and NaN are outside the model.
    \<^verbatim>\<open>round(x, 2)\<close> is rounding to the nearest hundredth, ties to even.
  \<^item> \<^verbatim>\<open>None\<close> is \<open>None\<close> of an option type; Python truthiness of an optional
    float is `present and non-zero'.
  \<^item> \<^verbatim>\<open>str.lower\<close> and case-insensitive matching fold the cased letters of ASCII and
    Latin-1, one code point to one code point. Other characters are left unchanged:
    case mappings that change the length of a string (U+0130) and the extra
    equivalences of \<^verbatim>\<open>re.IGNORECASE\<close> (U+017F for s, U+0130 and U+0131 for i) are
    outside the model.
  \<^item> The regular expressions of the source are values of the datatype \<open>rx\<close>, run by a
    backtracking matcher that lists the possible continuations in the priority order
    of Python's \<^verbatim>\<open>re\<close> module (greedy before shorter, left alternative first).
\<close>

subsection \<open>Strings\<close>

type_synonym ustr = "int list"

definition u :: "string \<Rightarrow> ustr" where
  "u s = map of_char s"

definition EURO :: int where "EURO = 8364"
definition NBSP :: int where "NBSP = 160"
definition E_GRAVE :: int where "E_GRAVE = 232"

text \<open>The characters for which \<^verbatim>\<open>str.isspace\<close> holds; \<^verbatim>\<open>\s\<close> and \<^verbatim>\<open>strip\<close> use them.\<close>

definition py_isspace :: "int \<Rightarrow> bool" where
  "py_isspace c \<longleftrightarrow> (9 \<le> c \<and> c \<le> 13) \<or> (28 \<le> c \<and> c \<le> 32) \<or> c = 133 \<or> c = 160
     \<or> c = 5760 \<or> (8192 \<le> c \<and> c \<le> 8202) \<or> c = 8232 \<or> c = 8233 \<or> c = 8239
     \<or> c = 8287 \<or> c = 12288"

text \<open>The class \<^verbatim>\<open>[0-9]\<close>; on the characters of an amount it is also \<^verbatim>\<open>str.isdigit\<close>.\<close>

definition is_digit :: "int \<Rightarrow> bool" where
  "is_digit c \<longleftrightarrow> 48 \<le> c \<and> c \<le> 57"

definition lower_cp :: "int \<Rightarrow> int" where
  "lower_cp c = (if (65 \<le> c \<and> c \<le> 90) \<or> (192 \<le> c \<and> c \<le> 214) \<or> (216 \<le> c \<and> c \<le> 222)
                 then c + 32 else c)"

definition py_lower :: "ustr \<Rightarrow> ustr" where
  "py_lower s = map lower_cp s"

text \<open>\<^verbatim>\<open>s[a:b]\<close> for \<open>0 \<le> a\<close>, \<open>0 \<le> b\<close>.\<close>

definition slice :: "ustr \<Rightarrow> nat \<Rightarrow> nat \<Rightarrow> ustr" where
  "slice s a b = take (b - a) (drop a s)"

text \<open>\<^verbatim>\<open>s.find(sub, start)\<close>: the lowest index from \<open>start\<close> at which \<open>sub\<close> occurs.\<close>

definition py_find :: "ustr \<Rightarrow> ustr \<Rightarrow> nat \<Rightarrow> nat option" where
  "py_find s sub start = List.find (\<lambda>i. prefix sub (drop i s)) [start..<Suc (length s)]"

text \<open>\<^verbatim>\<open>sub in s\<close>.\<close>

definition py_in :: "ustr \<Rightarrow> ustr \<Rightarrow> bool" where
  "py_in sub s \<longleftrightarrow> py_find s sub 0 \<noteq> None"

text \<open>\<^verbatim>\<open>s.rfind(c)\<close> for a single character: the last index of \<open>c\<close>, or \<open>-1\<close>.\<close>

definition py_rfind :: "ustr \<Rightarrow> int \<Rightarrow> int" where
  "py_rfind s c = (case List.find (\<lambda>i. s ! i = c) (rev [0..<length s]) of
      None \<Rightarrow> - 1
    | Some i \<Rightarrow> int i)"

definition py_strip :: "ustr \<Rightarrow> ustr" where
  "py_strip s = rev (dropWhile py_isspace (rev (dropWhile py_isspace s)))"

text \<open>\<^verbatim>\<open>s.replace(c, '')\<close> and \<^verbatim>\<open>s.replace(c, d)\<close> for single characters.\<close>

definition py_remove :: "int \<Rightarrow> ustr \<Rightarrow> ustr" where
  "py_remove c s = filter (\<lambda>x. x \<noteq> c) s"

definition py_replace :: "int \<Rightarrow> int \<Rightarrow> ustr \<Rightarrow> ustr" where
  "py_replace c d s = map (\<lambda>x. if x = c then d else x) s"

subsection \<open>Regular expressions\<close>

datatype rx =
    Eps
  | Chr int
  | OneOf "int list"
  | Digit
  | NonDigit
  | Space
  | AnyChar
  | Seq rx rx
  | Alt rx rx
  | Star rx
  | LazyStar rx
  | Opt rx
  | Grp rx

text \<open>
  \<open>rx_step ic da r s g\<close> lists, in priority order, the ways \<open>r\<close> can match a prefix of
  \<open>s\<close>: each result is the unmatched rest together with the text of capture group 1
  so far. \<open>ic\<close> is \<^verbatim>\<open>re.IGNORECASE\<close>, \<open>da\<close> is \<^verbatim>\<open>re.DOTALL\<close>. A repetition takes a
  further iteration only when the previous one consumed input.
\<close>

fun rx_step :: "bool \<Rightarrow> bool \<Rightarrow> rx \<Rightarrow> ustr \<Rightarrow> ustr option \<Rightarrow> (ustr \<times> ustr option) list" where
  "rx_step ic da Eps s g = [(s, g)]"
| "rx_step ic da (Chr a) s g = (case s of [] \<Rightarrow> [] | c # cs \<Rightarrow>
      if (if ic then lower_cp c = lower_cp a else c = a) then [(cs, g)] else [])"
| "rx_step ic da (OneOf as) s g = (case s of [] \<Rightarrow> [] | c # cs \<Rightarrow>
      if c \<in> set as then [(cs, g)] else [])"
| "rx_step ic da Digit s g = (case s of [] \<Rightarrow> [] | c # cs \<Rightarrow>
      if is_digit c then [(cs, g)] else [])"
| "rx_step ic da NonDigit s g = (case s of [] \<Rightarrow> [] | c # cs \<Rightarrow>
      if is_digit c then [] else [(cs, g)])"
| "rx_step ic da Space s g = (case s of [] \<Rightarrow> [] | c # cs \<Rightarrow>
      if py_isspace c then [(cs, g)] else [])"
| "rx_step ic da AnyChar s g = (case s of [] \<Rightarrow> [] | c # cs \<Rightarrow>
      if da \<or> c \<noteq> 10 then [(cs, g)] else [])"
| "rx_step ic da (Seq r1 r2) s g =
     concat (map (\<lambda>(s', g'). rx_step ic da r2 s' g') (rx_step ic da r1 s g))"
| "rx_step ic da (Alt r1 r2) s g = rx_step ic da r1 s g @ rx_step ic da r2 s g"
| "rx_step ic da (Star r) s g =
     concat (map (\<lambda>(s', g'). if length s' < length s then rx_step ic da (Star r) s' g' else [])
                 (rx_step ic da r s g)) @ [(s, g)]"
| "rx_step ic da (LazyStar r) s g =
     (s, g) # concat (map (\<lambda>(s', g'). if length s' < length s
                                         then rx_step ic da (LazyStar r) s' g' else [])
                          (rx_step ic da r s g))"
| "rx_step ic da (Opt r) s g = rx_step ic da r s g @ [(s, g)]"
| "rx_step ic da (Grp r) s g =
     map (\<lambda>(s', g'). (s', Some (take (length s - length s') s))) (rx_step ic da r s g)"

text \<open>A match object: \<^verbatim>\<open>m.start()\<close>, \<^verbatim>\<open>m.end()\<close> and \<^verbatim>\<open>m.group(1)\<close>.\<close>

record rmatch =
  m_start :: nat
  m_end :: nat
  group1 :: ustr

text \<open>The match at the beginning of \<open>s\<close>: the first continuation, if any.\<close>

definition rx_match :: "bool \<Rightarrow> bool \<Rightarrow> rx \<Rightarrow> ustr \<Rightarrow> (nat \<times> ustr) option" where
  "rx_match ic da r s = (case rx_step ic da r s None of
      [] \<Rightarrow> None
    | (s', g) # _ \<Rightarrow> Some (length s - length s', case g of None \<Rightarrow> [] | Some w \<Rightarrow> w))"

text \<open>\<open>rx_scan\<close> tries the start positions from left to right; \<open>i\<close> is the index of \<open>s\<close> in
  the searched string.\<close>

fun rx_scan :: "bool \<Rightarrow> bool \<Rightarrow> rx \<Rightarrow> ustr \<Rightarrow> nat \<Rightarrow> rmatch option" where
  "rx_scan ic da r [] i = (case rx_match ic da r [] of
      Some (n, w) \<Rightarrow> Some \<lparr>m_start = i, m_end = i + n, group1 = w\<rparr>
    | None \<Rightarrow> None)"
| "rx_scan ic da r (c # cs) i = (case rx_match ic da r (c # cs) of
      Some (n, w) \<Rightarrow> Some \<lparr>m_start = i, m_end = i + n, group1 = w\<rparr>
    | None \<Rightarrow> rx_scan ic da r cs (Suc i))"

text \<open>\<^verbatim>\<open>re.search\<close>.\<close>

definition re_search :: "bool \<Rightarrow> bool \<Rightarrow> rx \<Rightarrow> ustr \<Rightarrow> rmatch option" where
  "re_search ic da r s = rx_scan ic da r s 0"

text \<open>\<^verbatim>\<open>re.finditer\<close>: the successive non-overlapping matches. None of the patterns below
  matches the empty string; the \<open>max\<close> only makes every step advance.\<close>

function re_finditer_from :: "bool \<Rightarrow> bool \<Rightarrow> rx \<Rightarrow> ustr \<Rightarrow> nat \<Rightarrow> rmatch list" where
  "re_finditer_from ic da r s off = (case rx_scan ic da r s off of
      None \<Rightarrow> []
    | Some m \<Rightarrow> if s = [] then [m]
        else m # re_finditer_from ic da r (drop (max 1 (m_end m - off)) s)
                                        (off + max 1 (m_end m - off)))"
  by pat_completeness auto
termination
  by (relation "measure (\<lambda>(ic, da, r, s, off). length s)") auto

declare re_finditer_from.simps [simp del]

definition re_finditer :: "bool \<Rightarrow> bool \<Rightarrow> rx \<Rightarrow> ustr \<Rightarrow> rmatch list" where
  "re_finditer ic da r s = re_finditer_from ic da r s 0"

text \<open>Pattern combinators: a literal word, \<^verbatim>\<open>r{1,3}\<close>, \<^verbatim>\<open>r{3}\<close>, \<^verbatim>\<open>r+\<close>.\<close>

definition lit :: "string \<Rightarrow> rx" where
  "lit s = foldr (\<lambda>c r. Seq (Chr (of_char c)) r) s Eps"

definition rep13 :: "rx \<Rightarrow> rx" where
  "rep13 r = Seq r (Opt (Seq r (Opt r)))"

definition rep3 :: "rx \<Rightarrow> rx" where
  "rep3 r = Seq r (Seq r r)"

definition plus :: "rx \<Rightarrow> rx" where
  "plus r = Seq r (Star r)"

fun seqs :: "rx list \<Rightarrow> rx" where
  "seqs [] = Eps"
| "seqs [r] = r"
| "seqs (r # rs) = Seq r (seqs rs)"

text \<open>The amount group shared by all patterns:
  \<^verbatim>\<open>([0-9]{1,3}(?:[ \u00A0\.,][0-9]{3})*(?:[\.,][0-9]+)?)\<close>.\<close>

definition amount_group :: rx where
  "amount_group = Grp (seqs [rep13 Digit,
      Star (Seq (OneOf [32, NBSP, 46, 44]) (rep3 Digit)),
      Opt (Seq (OneOf [46, 44]) (plus Digit))])"

text \<open>\<^verbatim>\<open>(?:\<euro>|euros?)\<close>.\<close>

definition currency :: rx where
  "currency = Alt (Chr EURO) (Seq (lit ''euro'') (Opt (Chr 115)))"

text \<open>\<^verbatim>\<open>AMOUNT_RE\<close>, compiled without flags.\<close>

definition AMOUNT_RE :: rx where
  "AMOUNT_RE = seqs [amount_group, Star Space, currency]"

subsection \<open>The number normaliser\<close>

definition digits_val :: "ustr \<Rightarrow> int" where
  "digits_val ds = foldl (\<lambda>a c. 10 * a + (c - 48)) 0 ds"

text \<open>
  \<^verbatim>\<open>float(v)\<close> on a string of ASCII digits and dots, which is all that reaches it
  from a raw amount: digits with at most one dot and at least one digit. Anything
  else is the \<^verbatim>\<open>ValueError\<close> that \<^verbatim>\<open>parse_amount\<close> turns into \<^verbatim>\<open>None\<close>.
\<close>

definition py_float :: "ustr \<Rightarrow> rat option" where
  "py_float v =
     (if list_all (\<lambda>c. is_digit c \<or> c = 46) v \<and> length (filter (\<lambda>c. c = 46) v) \<le> 1
         \<and> list_ex is_digit v
      then (let ip = takeWhile is_digit v; fp = drop 1 (dropWhile is_digit v)
            in Some (of_int (digits_val ip) + of_int (digits_val fp) / 10 ^ length fp))
      else None)"

text \<open>The nested helper \<^verbatim>\<open>digits_after(s, pos)\<close>.\<close>

definition digits_after :: "ustr \<Rightarrow> int \<Rightarrow> nat" where
  "digits_after s pos = length (takeWhile is_digit (drop (nat (pos + 1)) s))"

definition parse_amount :: "ustr \<Rightarrow> rat option" where
  "parse_amount raw =
     (let v = py_strip raw;
          v = py_replace NBSP 32 v;
          v = (if 44 \<in> set v \<or> 46 \<in> set v then
                 (let last_comma = py_rfind v 44;
                      last_dot = py_rfind v 46;
                      comma_digits = (if last_comma \<ge> 0 then digits_after v last_comma else 0);
                      dot_digits = (if last_dot \<ge> 0 then digits_after v last_dot else 0)
                  in if last_comma > last_dot then
                       (if 1 \<le> comma_digits \<and> comma_digits \<le> 2
                        then py_replace 44 46 (py_remove 46 (py_remove 32 v))
                        else py_remove 46 (py_remove 44 (py_remove 32 v)))
                     else
                       (if 1 \<le> dot_digits \<and> dot_digits \<le> 2
                        then py_remove 44 (py_remove 32 v)
                        else py_remove 46 (py_remove 44 (py_remove 32 v))))
               else py_remove 32 v)
      in py_float v)"

subsection \<open>The period detector\<close>

datatype period = Monthly | Annual

text \<open>\<^verbatim>\<open>detect_period_from_snippet\<close>; the result \<open>None\<close> is Python's \<^verbatim>\<open>None\<close> (unknown).
  In the first condition \<^verbatim>\<open>and\<close> binds tighter than \<^verbatim>\<open>or\<close>.\<close>

definition detect_period_from_snippet :: "ustr \<Rightarrow> period option" where
  "detect_period_from_snippet snippet =
     (let s = py_lower snippet in
      if py_in (u ''par mois'') s \<or> py_in (u ''/mois'') s \<or> py_in (EURO # u ''/mois'') s
         \<or> (py_in (u ''mois'') s \<and> \<not> py_in (u ''par an'') s)
      then Some Monthly
      else if py_in (u ''par an'') s \<or> py_in (u ''/an'') s \<or> py_in (u ''annuel'') s
              \<or> py_in (u ''par an'') s
      then Some Annual
      else None)"

subsection \<open>The keyword-window search\<close>

text \<open>The snippet built for the keyword occurrence at \<open>idx\<close>: in strict mode from the
  keyword to 50 characters past its end, otherwise 300 characters on each side of
  the keyword's start, both clamped to the text.\<close>

definition search_snippet :: "ustr \<Rightarrow> ustr \<Rightarrow> bool \<Rightarrow> nat \<Rightarrow> ustr" where
  "search_snippet text keyword strict idx =
     (if strict then
        (let search_end = min (length text) (idx + length keyword + 50)
         in slice text idx search_end)
      else
        (let window = 300;
             snippet_start = idx - window;
             snippet_end = min (length text) (idx + window)
         in slice text snippet_start snippet_end))"

text \<open>The loop of \<^verbatim>\<open>parse_amounts_near_keyword\<close>, from the cursor \<open>start\<close>. The amount is
  searched in \<^verbatim>\<open>search_snippet[len(keyword):]\<close> in both modes.\<close>

function near_keyword_loop ::
  "ustr \<Rightarrow> ustr \<Rightarrow> bool \<Rightarrow> nat \<Rightarrow> rat option \<times> ustr option" where
  "near_keyword_loop text keyword strict start =
     (case py_find (py_lower text) (py_lower keyword) start of
        None \<Rightarrow> (None, None)
      | Some idx \<Rightarrow>
          (let snip = search_snippet text keyword strict idx in
           case re_search False False AMOUNT_RE (drop (length keyword) snip) of
             Some m \<Rightarrow> (parse_amount (group1 m), Some snip)
           | None \<Rightarrow> near_keyword_loop text keyword strict (idx + 1)))"
  by pat_completeness auto
termination
proof (relation "measure (\<lambda>(text, keyword, strict, start). Suc (length text) - start)")
  show "wf (measure (\<lambda>(text, keyword, strict, start). Suc (length text) - start))"
    by simp
next
  fix t kw :: ustr and strict :: bool and start idx :: nat
  assume "py_find (py_lower t) (py_lower kw) start = Some idx"
  then have "idx \<in> set [start..<Suc (length (py_lower t))]"
    unfolding py_find_def by (metis find_Some_iff nth_mem)
  then have "start \<le> idx \<and> idx < Suc (length (py_lower t))"
    by (simp only: set_upt atLeastLessThan_iff)
  then have "start \<le> idx" and "idx \<le> length t"
    by (simp_all add: py_lower_def)
  then show "((t, kw, strict, idx + 1), (t, kw, strict, start))
      \<in> measure (\<lambda>(text, keyword, strict, start). Suc (length text) - start)"
    by simp
qed

declare near_keyword_loop.simps [simp del]

definition parse_amounts_near_keyword ::
  "ustr \<Rightarrow> ustr \<Rightarrow> bool \<Rightarrow> rat option \<times> ustr option" where
  "parse_amounts_near_keyword text keyword strict = near_keyword_loop text keyword strict 0"

subsection \<open>The patterns of the field cascades\<close>

text \<open>Each pattern below is compiled with \<^verbatim>\<open>re.IGNORECASE\<close>; \<open>RENT6\<close> also with
  \<^verbatim>\<open>re.DOTALL\<close>. \<open>AMT\<close> stands for the amount group.

  \<^item> \<open>RENT1\<close>: \<^verbatim>\<open>loyer\s+annuel\s*:?\s*AMT\s*(?:\<euro>|euros?)\<close>
  \<^item> \<open>RENT2\<close>: \<^verbatim>\<open>loyer\s+mensuel\s+de\s+AMT\<close>
  \<^item> \<open>RENT3\<close>: \<^verbatim>\<open>loyer[^0-9]*AMT\s*\<euro>\s*(?:/\s*an|par\s+an)\<close>
  \<^item> \<open>RENT4\<close>: \<^verbatim>\<open>loyer[^0-9]*AMT\s*\<euro>\<close>
  \<^item> \<open>RENT5\<close>: \<^verbatim>\<open>loyer\s+AMT\s+euros?\<close>
  \<^item> \<open>RENT6\<close>: \<^verbatim>\<open>soit\s+.*?AMT\s*euros?\s+par\s+mois\<close>
  \<^item> \<open>CHARGES1\<close>: \<^verbatim>\<open>charges\s+AMT\s*(?:\<euro>|euros?)\<close>
  \<^item> \<open>CHARGES2\<close>: \<^verbatim>\<open>[+\s]?AMT\s*\<euro>\s+de\s+charges\<close>
\<close>

definition RENT1 :: rx where
  "RENT1 = seqs [lit ''loyer'', plus Space, lit ''annuel'', Star Space, Opt (Chr 58), Star Space,
                 amount_group, Star Space, currency]"

definition RENT2 :: rx where
  "RENT2 = seqs [lit ''loyer'', plus Space, lit ''mensuel'', plus Space, lit ''de'', plus Space,
                 amount_group]"

definition RENT3 :: rx where
  "RENT3 = seqs [lit ''loyer'', Star NonDigit, amount_group, Star Space, Chr EURO, Star Space,
                 Alt (seqs [Chr 47, Star Space, lit ''an''])
                     (seqs [lit ''par'', plus Space, lit ''an''])]"

definition RENT4 :: rx where
  "RENT4 = seqs [lit ''loyer'', Star NonDigit, amount_group, Star Space, Chr EURO]"

definition RENT5 :: rx where
  "RENT5 = seqs [lit ''loyer'', plus Space, amount_group, plus Space, lit ''euro'', Opt (Chr 115)]"

definition RENT6 :: rx where
  "RENT6 = seqs [lit ''soit'', plus Space, LazyStar AnyChar, amount_group, Star Space,
                 lit ''euro'', Opt (Chr 115), plus Space, lit ''par'', plus Space, lit ''mois'']"

definition CHARGES1 :: rx where
  "CHARGES1 = seqs [lit ''charges'', plus Space, amount_group, Star Space, currency]"

definition CHARGES2 :: rx where
  "CHARGES2 = seqs [Opt (Alt (Chr 43) Space), amount_group, Star Space, Chr EURO, plus Space,
                    lit ''de'', plus Space, lit ''charges'']"

subsection \<open>The listing record and its fields\<close>

record listing =
  url :: ustr
  title :: ustr
  price :: "rat option"
  monthly_rent :: "rat option"
  annual_rent :: "rat option"
  monthly_charges :: "rat option"
  annual_charges :: "rat option"
  taxe_fonciere_annual :: "rat option"
  gross_yield_pct :: "rat option"
  net_yield_pct :: "rat option"

text \<open>Truthiness of an optional float, as in \<^verbatim>\<open>if price:\<close>.\<close>

definition truthy :: "rat option \<Rightarrow> bool" where
  "truthy x = (case x of None \<Rightarrow> False | Some v \<Rightarrow> v \<noteq> 0)"

text \<open>\<^verbatim>\<open>round(x, 2)\<close>.\<close>

definition round_half_even :: "rat \<Rightarrow> int" where
  "round_half_even y =
     (let f = \<lfloor>y\<rfloor>; d = y - of_int f
      in if d < 1 / 2 then f else if 1 / 2 < d then f + 1 else if even f then f else f + 1)"

definition py_round2 :: "rat \<Rightarrow> rat" where
  "py_round2 x = of_int (round_half_even (x * 100)) / 100"

text \<open>\<^verbatim>\<open>combined_text = body_text + "\n" + text if body_text else text\<close>.\<close>

definition combined_text :: "ustr \<Rightarrow> ustr \<Rightarrow> ustr" where
  "combined_text body_text text = (if body_text \<noteq> [] then body_text @ [10] @ text else text)"

text \<open>The snippet \<^verbatim>\<open>combined_text[max(0, m.start()-50):min(len(combined_text), m.end()+100)]\<close>.\<close>

definition around :: "ustr \<Rightarrow> rmatch \<Rightarrow> ustr" where
  "around text m = slice text (m_start m - 50) (min (length text) (m_end m + 100))"

subsubsection \<open>Price\<close>

text \<open>The loop over the price keywords; \<open>cur\<close> is the value of \<^verbatim>\<open>price\<close> before the
  iteration.\<close>

fun price_keyword_loop :: "ustr \<Rightarrow> ustr list \<Rightarrow> rat option \<Rightarrow> rat option" where
  "price_keyword_loop text [] cur = cur"
| "price_keyword_loop text (kw # kws) cur =
     (let p = fst (parse_amounts_near_keyword text kw False)
      in if truthy p then p else price_keyword_loop text kws p)"

text \<open>The amounts above 10000 of the last fallback.\<close>

definition large_amounts :: "ustr \<Rightarrow> rat list" where
  "large_amounts text =
     List.map_filter (\<lambda>m. case parse_amount (group1 m) of
                             None \<Rightarrow> None
                           | Some val \<Rightarrow> if val \<noteq> 0 \<and> val > 10000 then Some val else None)
                     (re_finditer False False AMOUNT_RE text)"

text \<open>\<open>json_price\<close> is the float read from the embedded JSON data of the page, when the page
  has one and the conversion succeeds.\<close>

definition extract_price :: "rat option \<Rightarrow> ustr \<Rightarrow> rat option" where
  "extract_price json_price text =
     (case json_price of
        Some p \<Rightarrow> Some p
      | None \<Rightarrow>
          (let price = price_keyword_loop text [u ''prix de vente'', u ''prix'', u ''vente''] None
           in if price = None then
                (case large_amounts text of
                   [] \<Rightarrow> None
                 | a # as \<Rightarrow> Some (fold max as a))
              else price))"

subsubsection \<open>Rent\<close>

text \<open>The plausibility tests \<^verbatim>\<open>loyer and 3600 <= loyer <= 36000\<close> and
  \<^verbatim>\<open>loyer and 300 <= loyer <= 3000\<close>.\<close>

definition annual_ok :: "rat option \<Rightarrow> bool" where
  "annual_ok loyer = (case loyer of None \<Rightarrow> False | Some v \<Rightarrow> v \<noteq> 0 \<and> 3600 \<le> v \<and> v \<le> 36000)"

definition monthly_ok :: "rat option \<Rightarrow> bool" where
  "monthly_ok loyer = (case loyer of None \<Rightarrow> False | Some v \<Rightarrow> v \<noteq> 0 \<and> 300 \<le> v \<and> v \<le> 3000)"

text \<open>The rent cascade of \<^verbatim>\<open>parse_ad_page\<close>; the result is the variable
  \<^verbatim>\<open>monthly_rent\<close> after the sixth block. (\<^verbatim>\<open>loyer\<close> and \<^verbatim>\<open>loyer_snip\<close> are not read
  after the cascade.)\<close>

definition extract_rent :: "ustr \<Rightarrow> rat option" where
  "extract_rent text =
     (let monthly_rent =
            (case re_search True False RENT1 text of
               None \<Rightarrow> None
             | Some m \<Rightarrow>
                 (let loyer = parse_amount (group1 m)
                  in if annual_ok loyer then map_option (\<lambda>v. v / 12) loyer else None));
          monthly_rent =
            (if monthly_rent = None then
               (case re_search True False RENT2 text of
                  None \<Rightarrow> monthly_rent
                | Some m \<Rightarrow>
                    (let monthly_rent = parse_amount (group1 m)
                     in if monthly_ok monthly_rent then monthly_rent else None))
             else monthly_rent);
          monthly_rent =
            (if monthly_rent = None then
               (case re_search True False RENT3 text of
                  None \<Rightarrow> monthly_rent
                | Some m \<Rightarrow>
                    (let loyer = parse_amount (group1 m)
                     in if annual_ok loyer then map_option (\<lambda>v. v / 12) loyer else monthly_rent))
             else monthly_rent);
          monthly_rent =
            (if monthly_rent = None then
               (case re_search True False RENT4 text of
                  None \<Rightarrow> monthly_rent
                | Some m \<Rightarrow>
                    (let loyer = parse_amount (group1 m);
                         snippet = py_lower (slice text (m_start m)
                                                   (min (length text) (m_end m + 100)))
                     in if py_in (u ''annuel'') snippet \<or> py_in (u ''par an'') snippet
                           \<or> py_in (u ''/an'') snippet
                        then (if annual_ok loyer then map_option (\<lambda>v. v / 12) loyer
                              else monthly_rent)
                        else (if monthly_ok loyer then loyer else monthly_rent)))
             else monthly_rent);
          monthly_rent =
            (if monthly_rent = None then
               (case re_search True False RENT5 text of
                  None \<Rightarrow> monthly_rent
                | Some m \<Rightarrow>
                    (let loyer = parse_amount (group1 m)
                     in if monthly_ok loyer then loyer else monthly_rent))
             else monthly_rent);
          monthly_rent =
            (if monthly_rent = None then
               (case re_search True True RENT6 text of
                  None \<Rightarrow> monthly_rent
                | Some m \<Rightarrow>
                    (if group1 m \<noteq> [] then
                       (let monthly_rent = parse_amount (group1 m)
                        in if monthly_ok monthly_rent then monthly_rent else None)
                     else monthly_rent))
             else monthly_rent)
      in monthly_rent)"

subsubsection \<open>Property tax\<close>

definition extract_taxe :: "ustr \<Rightarrow> rat option \<times> ustr option" where
  "extract_taxe text =
     (let (taxe, taxe_snip) = parse_amounts_near_keyword text (u ''taxe fonci'') True
      in if taxe = None
         then parse_amounts_near_keyword text (u ''taxe fonci'' @ [E_GRAVE] @ u ''re'') True
         else (taxe, taxe_snip))"

subsubsection \<open>Charges\<close>

fun charges_keyword_loop ::
  "ustr \<Rightarrow> ustr list \<Rightarrow> rat option \<times> ustr option \<Rightarrow> rat option \<times> ustr option" where
  "charges_keyword_loop text [] cur = cur"
| "charges_keyword_loop text (kw # kws) cur =
     (let r = parse_amounts_near_keyword text kw True
      in if fst r \<noteq> None then r else charges_keyword_loop text kws r)"

definition extract_charges :: "ustr \<Rightarrow> rat option \<times> ustr option" where
  "extract_charges text =
     (case re_search True False CHARGES1 text of
        Some m \<Rightarrow> (parse_amount (group1 m), Some (around text m))
      | None \<Rightarrow>
          (case re_search True False CHARGES2 text of
             Some m \<Rightarrow> (parse_amount (group1 m), Some (around text m))
           | None \<Rightarrow>
               charges_keyword_loop text
                 [u ''charges locatives'', u ''charges mensuel'',
                  u ''charge de copropri'' @ [233] @ u ''t'' @ [233], u ''charges annuelles'']
                 (None, None)))"

subsubsection \<open>Derived values, yields and rounding\<close>

text \<open>The \<^verbatim>\<open>if price and annual_rent:\<close> block. It takes and returns the variables
  \<^verbatim>\<open>monthly_rent\<close>, \<^verbatim>\<open>annual_rent\<close>, \<^verbatim>\<open>annual_charges\<close>, \<^verbatim>\<open>taxe_annual\<close>, and returns
  \<^verbatim>\<open>gross_yield\<close> and \<^verbatim>\<open>net_yield\<close> as well. The division cannot raise, since
  \<^verbatim>\<open>price\<close> is non-zero inside the block.\<close>

definition yield_block ::
  "rat option \<Rightarrow> rat option \<Rightarrow> rat option \<Rightarrow> rat option \<Rightarrow> rat option
   \<Rightarrow> rat option \<times> rat option \<times> rat option \<times> rat option \<times> rat option \<times> rat option" where
  "yield_block p mr ar ac ta =
     (case (p, ar) of
        (Some pv, Some arv) \<Rightarrow>
          if pv \<noteq> 0 \<and> arv \<noteq> 0 then
            (let gross_yield = (arv / pv) * 100
             in if gross_yield > 20 then (None, None, ac, ta, None, None)
                else
                  (let acv = (case ac of None \<Rightarrow> 0 | Some v \<Rightarrow> v);
                       tav = (case ta of None \<Rightarrow> 0 | Some v \<Rightarrow> v);
                       net_yield = ((arv - acv - tav) / pv) * 100
                   in (mr, ar, Some acv, Some tav, Some gross_yield, Some net_yield)))
          else (mr, ar, ac, ta, None, None)
      | _ \<Rightarrow> (mr, ar, ac, ta, None, None))"

text \<open>The monthly charges from the extracted charges and the period of their snippet
  (\<^verbatim>\<open>charges_snip or ""\<close> when there is none).\<close>

definition monthly_charges_of :: "rat option \<times> ustr option \<Rightarrow> rat option" where
  "monthly_charges_of ch =
     (let (charges, charges_snip) = ch;
          charges_period =
            detect_period_from_snippet (case charges_snip of None \<Rightarrow> [] | Some s \<Rightarrow> s)
      in case charges of
           None \<Rightarrow> None
         | Some c \<Rightarrow> if charges_period = Some Annual then Some (c / 12) else Some c)"

text \<open>The annual property tax from the extracted tax and the period of its snippet.\<close>

definition taxe_annual_of :: "rat option \<times> ustr option \<Rightarrow> rat option" where
  "taxe_annual_of tx =
     (let (taxe, taxe_snip) = tx;
          taxe_period = detect_period_from_snippet (case taxe_snip of None \<Rightarrow> [] | Some s \<Rightarrow> s)
      in case taxe of
           None \<Rightarrow> None
         | Some t \<Rightarrow> if taxe_period = Some Monthly then Some (t * 12) else Some t)"

text \<open>Everything of \<^verbatim>\<open>parse_ad_page\<close> after the four cascades.\<close>

definition assemble ::
  "ustr \<Rightarrow> ustr \<Rightarrow> rat option \<Rightarrow> rat option \<Rightarrow> rat option \<times> ustr option
   \<Rightarrow> rat option \<times> ustr option \<Rightarrow> listing" where
  "assemble url0 title0 p mr0 tx ch =
     (let mc = monthly_charges_of ch;
          ta0 = taxe_annual_of tx;
          ar0 = map_option (\<lambda>v. v * 12) mr0;
          ac0 = map_option (\<lambda>v. v * 12) mc;
          (mr, ar, ac, ta, gross_yield, net_yield) = yield_block p mr0 ar0 ac0 ta0
      in \<lparr> url = url0, title = title0,
           price = map_option py_round2 p,
           monthly_rent = map_option py_round2 mr,
           annual_rent = map_option py_round2 ar,
           monthly_charges = map_option py_round2 mc,
           annual_charges = map_option py_round2 ac,
           taxe_fonciere_annual = map_option py_round2 ta,
           gross_yield_pct = map_option py_round2 gross_yield,
           net_yield_pct = map_option py_round2 net_yield \<rparr>)"

text \<open>
  \<^verbatim>\<open>parse_ad_page\<close>, from what the fetch and HTML layer hands over: the page title, the
  \<^verbatim>\<open>body\<close> text of the embedded JSON data (empty when there is none), the text of the
  page and the JSON price.
\<close>

definition parse_ad_page ::
  "ustr \<Rightarrow> ustr \<Rightarrow> ustr \<Rightarrow> ustr \<Rightarrow> rat option \<Rightarrow> listing" where
  "parse_ad_page url0 title0 body_text text json_price =
     (let ct = combined_text body_text text
      in assemble url0 title0 (extract_price json_price ct) (extract_rent ct)
                  (extract_taxe ct) (extract_charges ct))"

subsection \<open>Specification-level normalisers\<close>

text \<open>The position of the rightmost separator, comma or dot.\<close>

definition last_separator :: "ustr \<Rightarrow> nat option" where
  "last_separator v = List.find (\<lambda>i. v ! i = 44 \<or> v ! i = 46) (rev [0..<length v])"

text \<open>The separator rule as the code applies it: when the rightmost separator is a decimal
  separator, the spaces and the occurrences of the other separator character are
  removed; an earlier occurrence of the same character stays (as a dot).\<close>

definition normalize_amended :: "ustr \<Rightarrow> rat option" where
  "normalize_amended raw =
     (let v = py_replace NBSP 32 (py_strip raw) in
      case last_separator v of
        None \<Rightarrow> py_float (py_remove 32 v)
      | Some p \<Rightarrow>
          (let sep = v ! p;
               other = (if sep = 44 then 46 else 44);
               k = digits_after v (int p)
           in if 1 \<le> k \<and> k \<le> 2
              then py_float (py_replace sep 46 (py_remove other (py_remove 32 v)))
              else py_float (py_remove 46 (py_remove 44 (py_remove 32 v)))))"

text \<open>The separator rule in the words of the specification: when the rightmost separator
  is a decimal separator, all other separators and the spaces are removed.\<close>

definition normalize_spec :: "ustr \<Rightarrow> rat option" where
  "normalize_spec raw =
     (let v = filter (\<lambda>c. c \<noteq> 32 \<and> c \<noteq> NBSP) raw in
      case last_separator v of
        None \<Rightarrow> py_float v
      | Some p \<Rightarrow>
          (let k = digits_after v (int p)
           in if 1 \<le> k \<and> k \<le> 2
              then py_float (py_remove 46 (py_remove 44 (take p v)) @ [46]
                             @ py_remove 46 (py_remove 44 (drop (Suc p) v)))
              else py_float (py_remove 46 (py_remove 44 v))))"

text \<open>The characters of a raw amount.\<close>

definition amount_char :: "int \<Rightarrow> bool" where
  "amount_char c \<longleftrightarrow> is_digit c \<or> c = 32 \<or> c = NBSP \<or> c = 44 \<or> c = 46"

subsection \<open>Specification-level view of the keyword-window search\<close>

text \<open>The start indices of the occurrences of the keyword in the text, case-insensitively,
  from left to right (overlapping occurrences included, as the cursor only moves one
  character past a start).\<close>

definition occurrences :: "ustr \<Rightarrow> ustr \<Rightarrow> nat list" where
  "occurrences text keyword =
     filter (\<lambda>i. prefix (py_lower keyword) (drop i (py_lower text))) [0..<Suc (length text)]"

text \<open>What one occurrence yields: nothing when no amount pattern is found in the part of
  its snippet that is searched, otherwise the normalised amount (which may be absent)
  and the snippet.\<close>

definition occurrence_result ::
  "ustr \<Rightarrow> ustr \<Rightarrow> bool \<Rightarrow> nat \<Rightarrow> (rat option \<times> ustr option) option" where
  "occurrence_result text keyword strict idx =
     (case re_search False False AMOUNT_RE
             (drop (length keyword) (search_snippet text keyword strict idx)) of
        None \<Rightarrow> None
      | Some m \<Rightarrow> Some (parse_amount (group1 m), Some (search_snippet text keyword strict idx)))"

text \<open>The property-tax search and the page parser without the fallback search on
  "taxe fonci\`ere".\<close>

definition extract_taxe_no_fallback :: "ustr \<Rightarrow> rat option \<times> ustr option" where
  "extract_taxe_no_fallback text = parse_amounts_near_keyword text (u ''taxe fonci'') True"

definition parse_ad_page_no_fallback ::
  "ustr \<Rightarrow> ustr \<Rightarrow> ustr \<Rightarrow> ustr \<Rightarrow> rat option \<Rightarrow> listing" where
  "parse_ad_page_no_fallback url0 title0 body_text text json_price =
     (let ct = combined_text body_text text
      in assemble url0 title0 (extract_price json_price ct) (extract_rent ct)
                  (extract_taxe_no_fallback ct) (extract_charges ct))"

subsection \<open>Specification-level view of the rent cascade\<close>

text \<open>
  The rent cascade as a list of rule descriptors: a pattern (with its \<^verbatim>\<open>DOTALL\<close> flag) and
  the unit of the amount it captures: stated per year, stated per month, or to be
  classified from the text that follows the match (annual when it contains "annuel",
  "par an" or "/an", monthly otherwise).
\<close>

datatype rent_unit = PerYear | PerMonth | BySnippet

definition rent_rules :: "(rx \<times> bool \<times> rent_unit) list" where
  "rent_rules = [(RENT1, False, PerYear), (RENT2, False, PerMonth), (RENT3, False, PerYear),
                 (RENT4, False, BySnippet), (RENT5, False, PerMonth), (RENT6, True, PerMonth)]"

text \<open>The plausibility ranges: an annual value in [3600, 36000] is divided by 12, a monthly
  value in [300, 3000] is kept; a value outside its range is discarded.\<close>

definition accept_annual :: "rat option \<Rightarrow> rat option" where
  "accept_annual v = (case v of
      None \<Rightarrow> None
    | Some x \<Rightarrow> if 3600 \<le> x \<and> x \<le> 36000 then Some (x / 12) else None)"

definition accept_monthly :: "rat option \<Rightarrow> rat option" where
  "accept_monthly v = (case v of
      None \<Rightarrow> None
    | Some x \<Rightarrow> if 300 \<le> x \<and> x \<le> 3000 then Some x else None)"

text \<open>What one rule yields on a text: the accepted monthly rent of its first match, if any.\<close>

definition rule_value :: "ustr \<Rightarrow> rx \<times> bool \<times> rent_unit \<Rightarrow> rat option" where
  "rule_value text rule =
     (case rule of (pat, da, unit) \<Rightarrow>
        (case re_search True da pat text of
           None \<Rightarrow> None
         | Some m \<Rightarrow>
             (let v = parse_amount (group1 m) in
              case unit of
                PerYear \<Rightarrow> accept_annual v
              | PerMonth \<Rightarrow> accept_monthly v
              | BySnippet \<Rightarrow>
                  (let snippet = py_lower (slice text (m_start m)
                                                 (min (length text) (m_end m + 100)))
                   in if py_in (u ''annuel'') snippet \<or> py_in (u ''par an'') snippet
                         \<or> py_in (u ''/an'') snippet
                      then accept_annual v else accept_monthly v))))"

text \<open>The first value that passed, in the order of the list.\<close>

fun first_passing :: "rat option list \<Rightarrow> rat option" where
  "first_passing [] = None"
| "first_passing (None # vs) = first_passing vs"
| "first_passing (Some v # vs) = Some v"

definition rent_cascade_spec :: "ustr \<Rightarrow> rat option" where
  "rent_cascade_spec text = first_passing (map (rule_value text) rent_rules)"

section \<open>Properties\<close>

subsection \<open>Substring tests\<close>

lemma py_in_iff: "py_in sub s \<longleftrightarrow> sublist sub s"
proof
  assume "py_in sub s"
  then obtain i where "prefix sub (drop i s)"
    unfolding py_in_def py_find_def by (auto simp: find_None_iff)
  then obtain ss where "drop i s = sub @ ss"
    by (auto simp: prefix_def)
  then have "s = take i s @ sub @ ss"
    by (metis append_take_drop_id)
  then show "sublist sub s"
    unfolding sublist_def by blast
next
  assume "sublist sub s"
  then obtain ps ss where s: "s = ps @ sub @ ss"
    unfolding sublist_def by blast
  then have "prefix sub (drop (length ps) s)" and "length ps \<in> set [0..<Suc (length s)]"
    by simp_all
  then show "py_in sub s"
    unfolding py_in_def py_find_def find_None_iff by blast
qed

lemma py_in_Cons: "py_in (c # sub) s \<Longrightarrow> py_in sub s"
proof -
  assume "py_in (c # sub) s"
  then obtain ps ss where "s = ps @ (c # sub) @ ss"
    unfolding py_in_iff sublist_def by blast
  then have "s = (ps @ [c]) @ sub @ ss"
    by simp
  then show "py_in sub s"
    unfolding py_in_iff sublist_def by blast
qed

subsection \<open>The period detector checks the monthly markers first\<close>

text \<open>
  C5 (as the code has it). The detector lower-cases the snippet and returns monthly if
  it contains "par mois" or "/mois", or contains "mois" and not "par an"; otherwise
  annual if it contains "par an", "/an" or "annuel"; otherwise unknown. The monthly
  markers are tested before the annual ones.
\<close>

theorem detect_period_monthly_first:
  "detect_period_from_snippet snippet =
     (if py_in (u ''par mois'') (py_lower snippet) \<or> py_in (u ''/mois'') (py_lower snippet)
         \<or> (py_in (u ''mois'') (py_lower snippet) \<and> \<not> py_in (u ''par an'') (py_lower snippet))
      then Some Monthly
      else if py_in (u ''par an'') (py_lower snippet) \<or> py_in (u ''/an'') (py_lower snippet)
              \<or> py_in (u ''annuel'') (py_lower snippet)
      then Some Annual
      else None)"
  using py_in_Cons [of EURO "u ''/mois''" "py_lower snippet"]
  by (auto simp: detect_period_from_snippet_def Let_def)

theorem detect_period_monthly_first_witness:
  "detect_period_from_snippet (u ''Loyer 6000 euros par AN, hors charges'') = Some Annual
   \<and> detect_period_from_snippet (u ''loyer annuel, soit 500 euros par mois'') = Some Monthly
   \<and> detect_period_from_snippet (u ''6 mois de loyer par an'') = Some Annual
   \<and> detect_period_from_snippet (u ''charges comprises'') = None"
  apply (simp only: detect_period_monthly_first)
  apply code_simp
  done

text \<open>
  C5 as stated, with the annual markers first, fails: this snippet contains the annual
  marker "annuel" and is not classified annual (it is classified monthly).
\<close>

theorem detect_period_annual_marker_not_annual:
  "py_in (u ''annuel'') (py_lower (u ''loyer annuel, soit 500 euros par mois''))
   \<and> detect_period_from_snippet (u ''loyer annuel, soit 500 euros par mois'') \<noteq> Some Annual"
  by code_simp

subsection \<open>The number normaliser\<close>

lemma find_rev_upt_Some:
  "List.find P (rev [0..<n]) = Some p \<longleftrightarrow> p < n \<and> P p \<and> (\<forall>q. p < q \<and> q < n \<longrightarrow> \<not> P q)"
proof (induction n)
  case 0
  then show ?case by simp
next
  case (Suc n)
  show ?case
  proof (cases "P n")
    case True
    then show ?thesis
      by (auto simp: less_Suc_eq)
  next
    case False
    then show ?thesis
      using Suc.IH by (auto simp: less_Suc_eq)
  qed
qed

lemma find_rev_upt_None:
  "List.find P (rev [0..<n]) = None \<longleftrightarrow> (\<forall>q<n. \<not> P q)"
  by (auto simp: find_None_iff)

lemma py_rfind_eq:
  assumes "p < length v" and "v ! p = c" and "\<forall>q. p < q \<and> q < length v \<longrightarrow> v ! q \<noteq> c"
  shows "py_rfind v c = int p"
proof -
  from assms have "List.find (\<lambda>i. v ! i = c) (rev [0..<length v]) = Some p"
    unfolding find_rev_upt_Some by blast
  then show ?thesis by (simp add: py_rfind_def)
qed

lemma py_rfind_less:
  assumes "\<forall>q. p \<le> q \<and> q < length v \<longrightarrow> v ! q \<noteq> c"
  shows "py_rfind v c < int p"
proof (cases "List.find (\<lambda>i. v ! i = c) (rev [0..<length v])")
  case None
  then show ?thesis by (simp add: py_rfind_def)
next
  case (Some i)
  then have i: "i < length v \<and> v ! i = c"
    unfolding find_rev_upt_Some by blast
  have "\<not> p \<le> i"
    using assms i by blast
  with Some show ?thesis by (simp add: py_rfind_def)
qed

lemma last_separator_None:
  "last_separator v = None \<longleftrightarrow> 44 \<notin> set v \<and> 46 \<notin> set v"
  unfolding last_separator_def find_rev_upt_None
  by (auto simp: in_set_conv_nth)

lemma py_replace_same: "py_replace c c s = s"
  by (simp add: py_replace_def)

lemma parse_amount_rule: "parse_amount raw = normalize_amended raw"
proof -
  define v where "v = py_replace NBSP 32 (py_strip raw)"
  show ?thesis
  proof (cases "last_separator v")
    case None
    then have "44 \<notin> set v" and "46 \<notin> set v"
      by (simp_all add: last_separator_None)
    with None show ?thesis
      by (simp add: parse_amount_def normalize_amended_def Let_def v_def [symmetric])
  next
    case (Some p)
    then have p: "p < length v" "v ! p = 44 \<or> v ! p = 46"
      and after: "\<forall>q. p < q \<and> q < length v \<longrightarrow> \<not> (v ! q = 44 \<or> v ! q = 46)"
      by (simp_all add: last_separator_def find_rev_upt_Some)
    from p have sep: "44 \<in> set v \<or> 46 \<in> set v"
      by (metis nth_mem)
    show ?thesis
    proof (cases "v ! p = 44")
      case True
      from p after True have lc: "py_rfind v 44 = int p"
        by (simp add: py_rfind_eq)
      from after True have "\<forall>q. p \<le> q \<and> q < length v \<longrightarrow> v ! q \<noteq> 46"
        by (metis le_neq_implies_less numeral_eq_iff semiring_norm(89) num.inject(1) semiring_norm(88))
      then have ld: "py_rfind v 46 < int p"
        by (rule py_rfind_less)
      from Some True sep lc ld show ?thesis
        by (simp add: parse_amount_def normalize_amended_def Let_def v_def [symmetric])
    next
      case False
      with p have dot: "v ! p = 46" by simp
      from p after dot have ld: "py_rfind v 46 = int p"
        by (simp add: py_rfind_eq)
      from after dot have "\<forall>q. p \<le> q \<and> q < length v \<longrightarrow> v ! q \<noteq> 44"
        by (metis le_neq_implies_less numeral_eq_iff semiring_norm(89) num.inject(1) semiring_norm(88))
      then have lc: "py_rfind v 44 < int p"
        by (rule py_rfind_less)
      from Some dot sep lc ld show ?thesis
        by (simp add: parse_amount_def normalize_amended_def Let_def v_def [symmetric] py_replace_same)
    qed
  qed
qed

lemma is_digit_not_space: "is_digit c \<Longrightarrow> \<not> py_isspace c"
  by (auto simp: is_digit_def py_isspace_def)

lemma filter_dropWhile_disjoint:
  "(\<And>x. Q x \<Longrightarrow> \<not> P x) \<Longrightarrow> filter P (dropWhile Q xs) = filter P xs"
  by (induction xs) auto

lemma filter_digit_strip: "filter is_digit (py_strip s) = filter is_digit s"
proof -
  have "filter is_digit (dropWhile py_isspace xs) = filter is_digit xs" for xs
    by (rule filter_dropWhile_disjoint) (auto dest: is_digit_not_space)
  then show ?thesis
    by (simp add: py_strip_def rev_filter [symmetric])
qed

lemma set_py_strip: "set (py_strip s) \<subseteq> set s"
proof -
  have "set (dropWhile py_isspace xs) \<subseteq> set xs" for xs
    by (meson set_dropWhileD subsetI)
  then have "set (dropWhile py_isspace (rev (dropWhile py_isspace s))) \<subseteq> set s"
    by (metis set_rev subset_trans)
  then show ?thesis
    by (simp add: py_strip_def)
qed

lemma clean_all_is_filter_digit:
  assumes "list_all amount_char s"
  shows "py_remove 46 (py_remove 44 (py_remove 32 (py_replace NBSP 32 s))) = filter is_digit s"
  using assms
  by (induction s) (auto simp: py_remove_def py_replace_def amount_char_def is_digit_def NBSP_def)

lemma digits_no_dot: "list_all is_digit ds \<Longrightarrow> filter (\<lambda>c. c = 46) ds = []"
  by (induction ds) (auto simp: is_digit_def)

lemma py_float_digits:
  assumes "list_all is_digit ds" and "ds \<noteq> []"
  shows "py_float ds = Some (of_int (digits_val ds))"
proof -
  from assms have a: "list_all (\<lambda>c. is_digit c \<or> c = 46) ds"
    by (simp add: list_all_iff)
  from assms have b: "filter (\<lambda>c. c = 46) ds = []"
    by (simp add: digits_no_dot)
  from assms have c: "list_ex is_digit ds"
    by (cases ds) simp_all
  from assms have d: "takeWhile is_digit ds = ds" "dropWhile is_digit ds = []"
    by (simp_all add: list_all_iff)
  show ?thesis
    by (simp add: py_float_def a b c d digits_val_def)
qed

lemma py_float_decimal:
  assumes "list_all is_digit ds" and "list_all is_digit fs" and "ds @ fs \<noteq> []"
  shows "py_float (ds @ 46 # fs) = Some (of_int (digits_val ds) + of_int (digits_val fs) / 10 ^ length fs)"
proof -
  from assms have a: "list_all (\<lambda>c. is_digit c \<or> c = 46) (ds @ 46 # fs)"
    by (auto simp: list_all_iff)
  from assms have b: "filter (\<lambda>c. c = 46) (ds @ 46 # fs) = [46]"
    by (simp add: digits_no_dot)
  from assms have c: "list_ex is_digit (ds @ 46 # fs)"
    by (cases ds; cases fs) simp_all
  have nd: "\<not> is_digit 46"
    by (simp add: is_digit_def)
  from assms nd have d: "takeWhile is_digit (ds @ 46 # fs) = ds"
    "dropWhile is_digit (ds @ 46 # fs) = 46 # fs"
    by (simp_all add: list_all_iff takeWhile_append2 dropWhile_append2)
  show ?thesis
    unfolding py_float_def Let_def d using a b c by simp
qed

lemma parse_amount_thousands:
  assumes chars: "list_all amount_char raw" and dig: "list_ex is_digit raw"
    and rule: "case last_separator (py_replace NBSP 32 (py_strip raw)) of
                 None \<Rightarrow> True
               | Some p \<Rightarrow> \<not> (1 \<le> digits_after (py_replace NBSP 32 (py_strip raw)) (int p)
                            \<and> digits_after (py_replace NBSP 32 (py_strip raw)) (int p) \<le> 2)"
  shows "parse_amount raw = Some (of_int (digits_val (filter is_digit raw)))"
proof -
  define v where "v = py_replace NBSP 32 (py_strip raw)"
  have "list_all amount_char (py_strip raw)"
    using chars set_py_strip [of raw] by (auto simp: list_all_iff)
  then have clean: "py_remove 46 (py_remove 44 (py_remove 32 v)) = filter is_digit raw"
    unfolding v_def by (simp add: clean_all_is_filter_digit filter_digit_strip)
  have "parse_amount raw = py_float (py_remove 46 (py_remove 44 (py_remove 32 v)))"
  proof (cases "last_separator v")
    case None
    then have "44 \<notin> set v" and "46 \<notin> set v"
      by (simp_all add: last_separator_None)
    then have "py_remove 46 (py_remove 44 (py_remove 32 v)) = py_remove 32 v"
      by (simp add: py_remove_def filter_id_conv) (rule filter_cong, auto)
    with None show ?thesis
      by (simp add: parse_amount_rule normalize_amended_def Let_def v_def [symmetric])
  next
    case (Some p)
    with rule show ?thesis
      by (auto simp: parse_amount_rule normalize_amended_def Let_def v_def [symmetric])
  qed
  also have "\<dots> = py_float (filter is_digit raw)"
    by (simp only: clean)
  also have "\<dots> = Some (of_int (digits_val (filter is_digit raw)))"
  proof (rule py_float_digits)
    show "list_all is_digit (filter is_digit raw)"
      by (simp add: list_all_iff)
    show "filter is_digit raw \<noteq> []"
      using dig by (auto simp: list_ex_iff filter_empty_conv)
  qed
  finally show ?thesis .
qed

lemma digits_unchanged:
  assumes "list_all is_digit fp" and "\<not> is_digit a"
  shows "py_replace a b fp = fp" and "py_remove a fp = fp"
  using assms by (induction fp) (auto simp: py_replace_def py_remove_def)

lemma clean_group:
  assumes sep: "sep = 44 \<and> other = 46 \<or> sep = 46 \<and> other = 44"
    and g: "list_all (\<lambda>c. is_digit c \<or> c = 32 \<or> c = NBSP \<or> c = other) g"
  shows "py_replace sep 46 (py_remove other (py_remove 32 (py_replace NBSP 32 g))) = filter is_digit g"
  using g
proof (induction g)
  case Nil
  show ?case by (simp add: py_remove_def py_replace_def)
next
  case (Cons c g)
  then have c: "is_digit c \<or> c = 32 \<or> c = NBSP \<or> c = other"
    and IH: "py_replace sep 46 (py_remove other (py_remove 32 (py_replace NBSP 32 g))) = filter is_digit g"
    by simp_all
  have split: "py_replace sep 46 (py_remove other (py_remove 32 (py_replace NBSP 32 (c # g))))
      = py_replace sep 46 (py_remove other (py_remove 32 (py_replace NBSP 32 [c])))
        @ py_replace sep 46 (py_remove other (py_remove 32 (py_replace NBSP 32 g)))"
    by (simp add: py_remove_def py_replace_def)
  have one: "py_replace sep 46 (py_remove other (py_remove 32 (py_replace NBSP 32 [c])))
      = (if is_digit c then [c] else [])"
  proof (cases "is_digit c")
    case True
    then have "c \<noteq> 32" "c \<noteq> NBSP" "c \<noteq> other" "c \<noteq> sep"
      using sep by (auto simp: is_digit_def NBSP_def)
    with True show ?thesis
      by (simp add: py_remove_def py_replace_def)
  next
    case False
    with c have "c = 32 \<or> c = NBSP \<or> c = other"
      by simp
    with False show ?thesis
      by (auto simp: py_remove_def py_replace_def)
  qed
  show ?case
    unfolding split one IH by simp
qed

lemma parse_amount_decimal:
  assumes sep: "sep = 44 \<and> other = 46 \<or> sep = 46 \<and> other = 44"
    and g: "list_all (\<lambda>c. is_digit c \<or> c = 32 \<or> c = NBSP \<or> c = other) g"
    and hd: "g \<noteq> []" "is_digit (hd g)"
    and fp: "list_all is_digit fp" "1 \<le> length fp" "length fp \<le> 2"
  shows "parse_amount (g @ [sep] @ fp)
         = Some (of_int (digits_val (filter is_digit g)) + of_int (digits_val fp) / 10 ^ length fp)"
proof -
  define raw where "raw = g @ [sep] @ fp"
  define v where "v = py_replace NBSP 32 raw"
  define g' where "g' = py_replace NBSP 32 g"
  have nd: "\<not> is_digit sep" "\<not> is_digit other" "\<not> is_digit 32" "\<not> is_digit NBSP" "sep \<noteq> NBSP"
    using sep by (auto simp: is_digit_def NBSP_def)
  obtain c cs where gc: "g = c # cs" and c: "is_digit c"
    using hd by (cases g) auto
  from fp obtain fs l where fpl: "fp = fs @ [l]"
    by (cases fp rule: rev_cases) auto
  with fp have l: "is_digit l" by simp
  have "dropWhile py_isspace raw = raw"
    using c by (simp add: raw_def gc is_digit_not_space)
  moreover have "dropWhile py_isspace (rev raw) = rev raw"
    using l by (simp add: raw_def fpl is_digit_not_space)
  ultimately have strip: "py_strip raw = raw"
    by (simp add: py_strip_def)
  have v: "v = g' @ [sep] @ fp"
    using nd fp by (simp add: v_def raw_def g'_def py_replace_def digits_unchanged(1) [unfolded py_replace_def])
  have len: "length g' = length g"
    by (simp add: g'_def py_replace_def)
  have "last_separator v = Some (length g)"
    unfolding last_separator_def find_rev_upt_Some
  proof (intro conjI allI impI)
    show "length g < length v" by (simp add: v len)
    show "v ! length g = 44 \<or> v ! length g = 46"
      using sep by (auto simp: v nth_append len)
    fix q assume q: "length g < q \<and> q < length v"
    then have "v ! q = fp ! (q - Suc (length g))" and "q - Suc (length g) < length fp"
      by (auto simp: v nth_append len nth_Cons')
    then have "is_digit (v ! q)"
      using fp(1) by (simp add: list_all_length)
    then show "\<not> (v ! q = 44 \<or> v ! q = 46)"
      by (auto simp: is_digit_def)
  qed
  moreover have "digits_after v (int (length g)) = length fp"
  proof -
    have "takeWhile is_digit fp = fp"
      using fp(1) by (simp add: takeWhile_eq_all_conv list_all_iff)
    moreover have "drop (nat (int (length g) + 1)) v = fp"
      by (simp add: v len nat_add_distrib)
    ultimately show ?thesis
      by (simp only: digits_after_def)
  qed
  moreover have "v ! length g = sep"
    by (simp add: v nth_append len)
  moreover have "py_replace sep 46 (py_remove (if sep = 44 then 46 else 44) (py_remove 32 v))
      = filter is_digit g @ 46 # fp"
  proof -
    have o: "(if sep = 44 then 46 else 44) = other"
      using sep by auto
    have 1: "py_replace sep 46 (py_remove other (py_remove 32 g')) = filter is_digit g"
      unfolding g'_def by (rule clean_group [OF sep g])
    have 2: "py_replace sep 46 (py_remove other (py_remove 32 fp)) = fp"
      using nd fp(1) by (simp add: digits_unchanged)
    have 3: "py_replace sep 46 (py_remove other (py_remove 32 [sep])) = [46]"
      using sep by (auto simp: py_replace_def py_remove_def)
    have "py_replace sep 46 (py_remove other (py_remove 32 (g' @ [sep] @ fp)))
        = py_replace sep 46 (py_remove other (py_remove 32 g'))
          @ py_replace sep 46 (py_remove other (py_remove 32 [sep]))
          @ py_replace sep 46 (py_remove other (py_remove 32 fp))"
      by (simp add: py_replace_def py_remove_def)
    then show ?thesis
      unfolding o v by (simp only: 1 2 3 append_Cons append_Nil)
  qed
  moreover have "py_float (filter is_digit g @ 46 # fp)
      = Some (of_int (digits_val (filter is_digit g)) + of_int (digits_val fp) / 10 ^ length fp)"
    using fp(1) c by (intro py_float_decimal) (simp_all add: list_all_iff gc)
  ultimately have "normalize_amended raw
      = Some (of_int (digits_val (filter is_digit g)) + of_int (digits_val fp) / 10 ^ length fp)"
    using fp(2,3)
    by (simp add: normalize_amended_def Let_def strip v_def [symmetric])
  then show ?thesis
    by (simp only: parse_amount_rule raw_def)
qed

lemma parse_amount_examples:
  "parse_amount (u ''4 524,92'') = Some 4524.92"
  "parse_amount (u ''3.125'') = Some 3125"
  "parse_amount (u ''1234.56'') = Some 1234.56"
  "parse_amount (u ''12,5'') = Some 12.5"
  by code_simp+

text \<open>
  C7 (as the code has it). The four examples hold. In general the rightmost of the
  separators is the decimal separator exactly when 1 or 2 digits follow it; then the
  spaces and the occurrences of the other separator character are removed (an earlier
  occurrence of the same character is kept, see \<open>normalize_amended\<close>). So an amount
  whose groups are separated by spaces or by the other separator, followed by the
  decimal separator and 1 or 2 digits, has the value of its digits with that many
  decimals; and when 0 or at least 3 digits follow the rightmost separator (or there
  is no separator) the value is that of all the digits, with no decimal part.
\<close>

theorem parse_amount_separator_rule:
  "parse_amount (u ''4 524,92'') = Some 4524.92
   \<and> parse_amount (u ''3.125'') = Some 3125
   \<and> parse_amount (u ''1234.56'') = Some 1234.56
   \<and> parse_amount (u ''12,5'') = Some 12.5
   \<and> (\<forall>raw. parse_amount raw = normalize_amended raw)
   \<and> (\<forall>g sep other fp.
         (sep = 44 \<and> other = 46 \<or> sep = 46 \<and> other = 44)
         \<and> list_all (\<lambda>c. is_digit c \<or> c = 32 \<or> c = NBSP \<or> c = other) g
         \<and> g \<noteq> [] \<and> is_digit (hd g)
         \<and> list_all is_digit fp \<and> 1 \<le> length fp \<and> length fp \<le> 2
         \<longrightarrow> parse_amount (g @ [sep] @ fp)
             = Some (of_int (digits_val (filter is_digit g))
                     + of_int (digits_val fp) / 10 ^ length fp))
   \<and> (\<forall>raw.
         list_all amount_char raw \<and> list_ex is_digit raw
         \<and> (case last_separator (py_replace NBSP 32 (py_strip raw)) of
               None \<Rightarrow> True
             | Some p \<Rightarrow> \<not> (1 \<le> digits_after (py_replace NBSP 32 (py_strip raw)) (int p)
                          \<and> digits_after (py_replace NBSP 32 (py_strip raw)) (int p) \<le> 2))
         \<longrightarrow> parse_amount raw = Some (of_int (digits_val (filter is_digit raw))))"
  by (intro conjI allI impI parse_amount_examples parse_amount_rule)
     (blast intro: parse_amount_decimal parse_amount_thousands)+

theorem parse_amount_separator_rule_witness:
  "parse_amount (u ''1 234.567'' @ [44] @ u ''89'')
     = Some (of_int (digits_val (filter is_digit (u ''1 234.567'')))
             + of_int (digits_val (u ''89'')) / 10 ^ length (u ''89''))
   \<and> parse_amount (u ''12 000.'') = Some (of_int (digits_val (filter is_digit (u ''12 000.''))))
   \<and> of_int (digits_val (filter is_digit (u ''1 234.567'')))
       + of_int (digits_val (u ''89'')) / 10 ^ length (u ''89'') = (1234567.89 :: rat)"
proof -
  have d: "(44 = (44::int) \<and> 46 = (46::int) \<or> 44 = (46::int) \<and> 46 = (44::int))
      \<and> list_all (\<lambda>c. is_digit c \<or> c = 32 \<or> c = NBSP \<or> c = 46) (u ''1 234.567'')
      \<and> u ''1 234.567'' \<noteq> [] \<and> is_digit (hd (u ''1 234.567''))
      \<and> list_all is_digit (u ''89'') \<and> 1 \<le> length (u ''89'') \<and> length (u ''89'') \<le> 2"
    by code_simp
  have t: "list_all amount_char (u ''12 000.'') \<and> list_ex is_digit (u ''12 000.'')
      \<and> (case last_separator (py_replace NBSP 32 (py_strip (u ''12 000.''))) of
            None \<Rightarrow> True
          | Some p \<Rightarrow> \<not> (1 \<le> digits_after (py_replace NBSP 32 (py_strip (u ''12 000.''))) (int p)
                       \<and> digits_after (py_replace NBSP 32 (py_strip (u ''12 000.''))) (int p) \<le> 2))"
    by code_simp
  have v: "of_int (digits_val (filter is_digit (u ''1 234.567'')))
       + of_int (digits_val (u ''89'')) / 10 ^ length (u ''89'') = (1234567.89 :: rat)"
    by code_simp
  from parse_amount_separator_rule d t v show ?thesis
    by blast
qed

text \<open>
  C7 as stated fails where the decimal separator also occurs earlier in the amount: in
  "1,234,56" the rightmost separator is the comma, two digits follow it, and the
  specification's rule gives 1234.56, but the code keeps the first comma as a second
  dot and the conversion fails.
\<close>

theorem parse_amount_repeated_separator:
  "py_rfind (u ''1,234,56'') 46 < py_rfind (u ''1,234,56'') 44
   \<and> digits_after (u ''1,234,56'') (py_rfind (u ''1,234,56'') 44) = 2
   \<and> normalize_spec (u ''1,234,56'') = Some 1234.56
   \<and> parse_amount (u ''1,234,56'') = None"
  by code_simp

subsection \<open>The keyword-window search\<close>

lemma find_upt_filter:
  "List.find Q [a..<n] = Some i \<Longrightarrow> filter Q [a..<n] = i # filter Q [Suc i..<n]"
proof (induction "n - a" arbitrary: a)
  case 0
  then show ?case by simp
next
  case (Suc k)
  then have lt: "a < n" by simp
  then have up: "[a..<n] = a # [Suc a..<n]"
    by (rule upt_conv_Cons)
  show ?case
  proof (cases "Q a")
    case True
    with Suc.prems up have "i = a" by simp
    with True up show ?thesis by simp
  next
    case False
    with Suc.prems up have "List.find Q [Suc a..<n] = Some i" by simp
    moreover from Suc.hyps(2) have "k = n - Suc a" by simp
    ultimately have "filter Q [Suc a..<n] = i # filter Q [Suc i..<n]"
      by (rule Suc.hyps(1) [rotated])
    with False up show ?thesis by simp
  qed
qed

lemma find_None_filter: "List.find Q xs = None \<Longrightarrow> filter Q xs = []"
  by (simp add: find_None_iff filter_empty_conv)

lemma near_keyword_loop_first:
  "near_keyword_loop t kw strict start =
     (case List.map_filter (occurrence_result t kw strict)
             (filter (\<lambda>i. prefix (py_lower kw) (drop i (py_lower t)))
                     [start..<Suc (length t)]) of
        [] \<Rightarrow> (None, None)
      | r # _ \<Rightarrow> r)"
proof (induction t kw strict start rule: near_keyword_loop.induct)
  case (1 t kw strict start)
  let ?Q = "\<lambda>i. prefix (py_lower kw) (drop i (py_lower t))"
  let ?f = "occurrence_result t kw strict"
  have len: "length (py_lower t) = length t"
    by (simp add: py_lower_def)
  show ?case
  proof (cases "py_find (py_lower t) (py_lower kw) start")
    case None
    then have "filter ?Q [start..<Suc (length t)] = []"
      unfolding py_find_def len by (rule find_None_filter)
    then have "List.map_filter ?f (filter ?Q [start..<Suc (length t)]) = []"
      by (simp only: map_filter_simps)
    moreover from None have "near_keyword_loop t kw strict start = (None, None)"
      by (subst near_keyword_loop.simps) simp
    ultimately show ?thesis
      by (simp only: list.case)
  next
    case (Some idx)
    then have fl: "filter ?Q [start..<Suc (length t)] = idx # filter ?Q [Suc idx..<Suc (length t)]"
      unfolding py_find_def len by (rule find_upt_filter)
    show ?thesis
    proof (cases "re_search False False AMOUNT_RE (drop (length kw) (search_snippet t kw strict idx))")
      case None
      then have fidx: "?f idx = None"
        by (simp add: occurrence_result_def)
      from Some None have "near_keyword_loop t kw strict start
          = near_keyword_loop t kw strict (idx + 1)"
        by (subst near_keyword_loop.simps) simp
      also have "\<dots> = (case List.map_filter ?f (filter ?Q [Suc idx..<Suc (length t)]) of
          [] \<Rightarrow> (None, None) | r # _ \<Rightarrow> r)"
        using "1.IH" [OF Some refl None] by (simp del: upt_Suc)
      also have "List.map_filter ?f (filter ?Q [Suc idx..<Suc (length t)])
          = List.map_filter ?f (filter ?Q [start..<Suc (length t)])"
        by (simp only: fl map_filter_simps fidx option.case)
      finally show ?thesis .
    next
      case (Some m)
      then have fidx: "?f idx = Some (parse_amount (group1 m), Some (search_snippet t kw strict idx))"
        by (simp add: occurrence_result_def)
      have "List.map_filter ?f (filter ?Q [start..<Suc (length t)])
          = (parse_amount (group1 m), Some (search_snippet t kw strict idx))
            # List.map_filter ?f (filter ?Q [Suc idx..<Suc (length t)])"
        by (simp only: fl map_filter_simps fidx option.case)
      moreover from Some \<open>py_find (py_lower t) (py_lower kw) start = Some idx\<close>
      have "near_keyword_loop t kw strict start
          = (parse_amount (group1 m), Some (search_snippet t kw strict idx))"
        by (subst near_keyword_loop.simps) simp
      ultimately show ?thesis
        by (simp only: list.case)
    qed
  qed
qed

lemma occurrence_result_snd: "occurrence_result text keyword strict idx = Some r \<Longrightarrow> snd r \<noteq> None"
  by (auto simp: occurrence_result_def split: option.splits)

text \<open>
  C9 (as the code has it). The search scans the occurrences of the keyword from left to
  right and returns the result of the first occurrence in whose searched text an
  amount pattern is found: the normalised amount with the snippet. When that amount
  fails normalisation the result is an absent amount (with the snippet); later
  occurrences are not examined. The search returns (absent, absent) exactly when no
  occurrence has an amount pattern.
\<close>

theorem near_keyword_first_pattern_match:
  "parse_amounts_near_keyword text keyword strict =
     (case List.map_filter (occurrence_result text keyword strict) (occurrences text keyword) of
        [] \<Rightarrow> (None, None)
      | r # _ \<Rightarrow> r)
   \<and> (parse_amounts_near_keyword text keyword strict = (None, None)
        \<longleftrightarrow> (\<forall>idx. idx \<in> set (occurrences text keyword)
                     \<longrightarrow> occurrence_result text keyword strict idx = None))"
proof -
  let ?rs = "List.map_filter (occurrence_result text keyword strict) (occurrences text keyword)"
  have eq: "parse_amounts_near_keyword text keyword strict =
      (case ?rs of [] \<Rightarrow> (None, None) | r # _ \<Rightarrow> r)"
    unfolding parse_amounts_near_keyword_def occurrences_def by (rule near_keyword_loop_first)
  have empty: "?rs = [] \<longleftrightarrow> (\<forall>idx. idx \<in> set (occurrences text keyword)
                     \<longrightarrow> occurrence_result text keyword strict idx = None)"
    unfolding map_filter_def
    by (simp only: map_is_Nil_conv filter_empty_conv not_not Ball_def)
  have "(case ?rs of [] \<Rightarrow> (None, None) | r # _ \<Rightarrow> r) = (None, None) \<longleftrightarrow> ?rs = []"
  proof (cases ?rs)
    case Nil
    then show ?thesis by simp
  next
    case (Cons r rs)
    then have "r \<in> set ?rs" by simp
    then obtain idx where "occurrence_result text keyword strict idx = Some r"
      by (auto simp: map_filter_def)
    then have "snd r \<noteq> None"
      by (rule occurrence_result_snd)
    with Cons show ?thesis by auto
  qed
  with eq empty show ?thesis by simp
qed

theorem near_keyword_first_pattern_match_witness:
  "parse_amounts_near_keyword (u ''vente 1 000 euros, prix 250 000 euros'') (u ''Prix'') True
     = (Some 250000, Some (u ''prix 250 000 euros''))
   \<and> occurrences (u ''vente 1 000 euros, prix 250 000 euros'') (u ''Prix'') = [19]
   \<and> parse_amounts_near_keyword (u ''prix sur demande'') (u ''prix'') True = (None, None)"
proof -
  have a: "(case List.map_filter (occurrence_result (u ''vente 1 000 euros, prix 250 000 euros'') (u ''Prix'') True)
              (occurrences (u ''vente 1 000 euros, prix 250 000 euros'') (u ''Prix'')) of
        [] \<Rightarrow> (None, None)
      | r # _ \<Rightarrow> r) = (Some 250000, Some (u ''prix 250 000 euros''))"
    by code_simp
  have b: "occurrences (u ''vente 1 000 euros, prix 250 000 euros'') (u ''Prix'') = [19]"
    by code_simp
  have c: "occurrences (u ''prix sur demande'') (u ''prix'') = [0]"
    "occurrence_result (u ''prix sur demande'') (u ''prix'') True 0 = None"
    by code_simp+
  have "parse_amounts_near_keyword (u ''prix sur demande'') (u ''prix'') True = (None, None)"
    using near_keyword_first_pattern_match
      [of "u ''prix sur demande''" "u ''prix''" True] c
    by simp
  with a b near_keyword_first_pattern_match
      [of "u ''vente 1 000 euros, prix 250 000 euros''" "u ''Prix''" True]
  show ?thesis by simp
qed

text \<open>
  C9 as stated fails: the first occurrence of "prix" is followed by "1.234.5", which
  matches the amount pattern and fails normalisation; the second occurrence would
  yield 100, but the search returns an absent amount.
\<close>

theorem near_keyword_no_advance_on_failed_amount:
  "occurrences (u ''prix 1.234.5 '' @ [EURO] @ u '' prix 100 '' @ [EURO]) (u ''prix'') = [0, 15]
   \<and> map_option fst (occurrence_result (u ''prix 1.234.5 '' @ [EURO] @ u '' prix 100 '' @ [EURO])
                         (u ''prix'') True 15) = Some (Some 100)
   \<and> fst (parse_amounts_near_keyword (u ''prix 1.234.5 '' @ [EURO] @ u '' prix 100 '' @ [EURO])
            (u ''prix'') True) = None"
  by code_simp

text \<open>The text in which the amount is searched, in both modes: in strict mode it starts
  at the end of the keyword occurrence; in lenient mode it starts \<open>len(keyword)\<close>
  characters after the start of the window, wherever the keyword lies in it.\<close>

lemma strict_search_region:
  "drop (length kw) (search_snippet t kw True idx)
   = slice t (idx + length kw) (min (length t) (idx + length kw + 50))"
  by (simp add: search_snippet_def slice_def Let_def drop_take add.commute)

lemma lenient_search_region:
  "drop (length kw) (search_snippet t kw False idx)
   = slice t (idx - 300 + length kw) (min (length t) (idx + 300))"
  by (simp add: search_snippet_def slice_def Let_def drop_take add.commute)

text \<open>
  C8, evaluated. In the lenient mode the snippet starts up to 300 characters before the
  keyword, and the amount is searched from \<open>len(keyword)\<close> characters after the start of
  the snippet, not from the end of the keyword. In "Loyer 650 EUR - Prix sur demande"
  the only occurrence of "prix" is at index 14 and no amount follows it, yet the
  search returns the 650 that precedes the keyword.
\<close>

theorem lenient_search_starts_before_keyword:
  "occurrences (u ''Loyer 650 '' @ [EURO] @ u '' - Prix sur demande'') (u ''prix'') = [14]
   \<and> re_search False False AMOUNT_RE
        (drop (14 + length (u ''prix'')) (u ''Loyer 650 '' @ [EURO] @ u '' - Prix sur demande''))
       = None
   \<and> parse_amounts_near_keyword (u ''Loyer 650 '' @ [EURO] @ u '' - Prix sur demande'')
        (u ''prix'') False
       = (Some 650, Some (u ''Loyer 650 '' @ [EURO] @ u '' - Prix sur demande''))
   \<and> parse_amounts_near_keyword (u ''Loyer 650 '' @ [EURO] @ u '' - Prix sur demande'')
        (u ''prix'') True
       = (None, None)"
  by code_simp

subsection \<open>The property-tax fallback\<close>

lemma assemble_no_taxe:
  "assemble url0 title0 p mr (None, sa) ch = assemble url0 title0 p mr (None, sb) ch"
  by (simp add: assemble_def taxe_annual_of_def)

lemma no_occurrence_no_result:
  assumes "\<not> py_in (py_lower keyword) (py_lower text)"
  shows "parse_amounts_near_keyword text keyword strict = (None, None)"
proof -
  from assms have "py_find (py_lower text) (py_lower keyword) 0 = None"
    by (simp add: py_in_def)
  then show ?thesis
    unfolding parse_amounts_near_keyword_def
    by (subst near_keyword_loop.simps) simp
qed

lemma assemble_taxe_present:
  assumes "taxe_annual_of tx = Some y"
  shows "taxe_fonciere_annual (assemble url0 title0 p mr tx ch) = Some (py_round2 y)"
  using assms
  by (simp add: assemble_def yield_block_def Let_def split: option.splits prod.splits)

lemma assemble_taxe_absent:
  "taxe_fonciere_annual (assemble url0 title0 p mr (None, sn) ch) = None
   \<or> taxe_fonciere_annual (assemble url0 title0 p mr (None, sn) ch) = Some 0"
  by (simp add: assemble_def yield_block_def taxe_annual_of_def Let_def py_round2_def round_half_even_def
           split: option.splits prod.splits)

text \<open>
  C10 (as the code has it). The fallback search on "taxe fonci\`ere" changes the record
  only when the search on "taxe fonci" yields no amount and the fallback yields one.
  Whenever the first search yields an amount, or the fallback search yields none, the
  parser with the fallback removed returns the same record; the fallback yields none in
  particular when the lower-cased text does not contain "taxe fonci\`ere". When the first
  search yields no amount and the fallback yields an amount, the record's
  \<^verbatim>\<open>taxe_fonciere_annual\<close> is that amount as an annual value (twelve times it when its
  snippet is monthly), rounded, whereas without the fallback it is absent or the zero
  default of the yield computation. That last case does occur: the first search yields
  no amount although the fallback yields one when the amount with its currency sign
  ends within the last three characters of the fallback's window (which ends 50
  characters past the longer keyword), and when the amount matched after an earlier
  occurrence of "taxe fonci" fails normalisation (the fallback skips that occurrence
  unless it is also one of "taxe fonci\`ere").

  The instances below are four texts. In "Taxe foncI\`ERE : 850 \<euro> par an" the first
  search yields 850. In "taxe fonci\`ere non communiqu\'ee" the keyword of the fallback
  occurs and the fallback yields no amount. In "taxe fonciere non communiquee" the
  keyword of the fallback does not occur. In "taxe fonciere 1,234,56 \<euro> - taxe
  fonci\`ere 800 \<euro>" the first search matches "1,234,56", whose normalisation fails, and
  so yields a snippet with no amount; the fallback yields 800.
\<close>

theorem taxe_fallback_only_fills_absent:
  "(fst (parse_amounts_near_keyword (combined_text body_text text) (u ''taxe fonci'') True) \<noteq> None
    \<or> fst (parse_amounts_near_keyword (combined_text body_text text)
             (u ''taxe fonci'' @ [E_GRAVE] @ u ''re'') True) = None
    \<longrightarrow> parse_ad_page url0 title0 body_text text json_price
        = parse_ad_page_no_fallback url0 title0 body_text text json_price)
   \<and> (\<not> py_in (py_lower (u ''taxe fonci'' @ [E_GRAVE] @ u ''re''))
               (py_lower (combined_text body_text text))
        \<longrightarrow> fst (parse_amounts_near_keyword (combined_text body_text text)
                 (u ''taxe fonci'' @ [E_GRAVE] @ u ''re'') True) = None)
   \<and> (fst (parse_amounts_near_keyword (combined_text body_text text) (u ''taxe fonci'') True) = None
        \<and> parse_amounts_near_keyword (combined_text body_text text)
             (u ''taxe fonci'' @ [E_GRAVE] @ u ''re'') True = (Some v, sn)
        \<longrightarrow> taxe_fonciere_annual (parse_ad_page url0 title0 body_text text json_price)
              = Some (py_round2 (if detect_period_from_snippet (case sn of None \<Rightarrow> [] | Some s \<Rightarrow> s)
                                     = Some Monthly
                                 then v * 12 else v))
            \<and> (taxe_fonciere_annual (parse_ad_page_no_fallback url0 title0 body_text text json_price)
                  = None
                \<or> taxe_fonciere_annual (parse_ad_page_no_fallback url0 title0 body_text text json_price)
                  = Some 0))"
proof -
  let ?ct = "combined_text body_text text"
  let ?first = "parse_amounts_near_keyword ?ct (u ''taxe fonci'') True"
  let ?fallback = "parse_amounts_near_keyword ?ct (u ''taxe fonci'' @ [E_GRAVE] @ u ''re'') True"
  let ?page = "parse_ad_page url0 title0 body_text text json_price"
  let ?page' = "parse_ad_page_no_fallback url0 title0 body_text text json_price"
  have found: "extract_taxe ?ct = extract_taxe_no_fallback ?ct" if "fst ?first \<noteq> None"
    using that by (auto simp: extract_taxe_def extract_taxe_no_fallback_def split: prod.splits)
  have missed: "extract_taxe ?ct = ?fallback" if "fst ?first = None"
    using that by (auto simp: extract_taxe_def split: prod.splits)
  have without: "extract_taxe_no_fallback ?ct = (None, snd ?first)" if "fst ?first = None"
    using that by (simp add: extract_taxe_no_fallback_def prod_eq_iff)
  have same: "?page = ?page'" if h: "fst ?first \<noteq> None \<or> fst ?fallback = None"
  proof -
    have "assemble url0 title0 (extract_price json_price ?ct) (extract_rent ?ct) (extract_taxe ?ct)
            (extract_charges ?ct)
        = assemble url0 title0 (extract_price json_price ?ct) (extract_rent ?ct)
            (extract_taxe_no_fallback ?ct) (extract_charges ?ct)"
    proof (cases "fst ?first = None")
      case False
      then show ?thesis by (simp add: found)
    next
      case True
      with h have "?fallback = (None, snd ?fallback)"
        by (simp add: prod_eq_iff)
      with True have "extract_taxe ?ct = (None, snd ?fallback)"
        by (simp add: missed)
      with without [OF True] show ?thesis
        by (simp only: assemble_no_taxe [where sa = "snd ?fallback" and sb = "snd ?first"])
    qed
    then show ?thesis
      by (simp add: parse_ad_page_def parse_ad_page_no_fallback_def Let_def)
  qed
  have inert: "fst ?fallback = None"
    if "\<not> py_in (py_lower (u ''taxe fonci'' @ [E_GRAVE] @ u ''re'')) (py_lower ?ct)"
    using that by (simp add: no_occurrence_no_result)
  have fills: "taxe_fonciere_annual ?page
        = Some (py_round2 (if detect_period_from_snippet (case sn of None \<Rightarrow> [] | Some s \<Rightarrow> s)
                               = Some Monthly
                           then v * 12 else v))
      \<and> (taxe_fonciere_annual ?page' = None \<or> taxe_fonciere_annual ?page' = Some 0)"
    if n: "fst ?first = None" and f: "?fallback = (Some v, sn)"
  proof -
    from n f have "extract_taxe ?ct = (Some v, sn)"
      by (simp add: missed)
    then have "taxe_annual_of (extract_taxe ?ct)
        = Some (if detect_period_from_snippet (case sn of None \<Rightarrow> [] | Some s \<Rightarrow> s) = Some Monthly
                then v * 12 else v)"
      by (simp add: taxe_annual_of_def)
    then have "taxe_fonciere_annual ?page
        = Some (py_round2 (if detect_period_from_snippet (case sn of None \<Rightarrow> [] | Some s \<Rightarrow> s)
                               = Some Monthly
                           then v * 12 else v))"
      unfolding parse_ad_page_def Let_def by (rule assemble_taxe_present)
    moreover have "taxe_fonciere_annual ?page' = None \<or> taxe_fonciere_annual ?page' = Some 0"
      unfolding parse_ad_page_no_fallback_def Let_def without [OF n]
      by (rule assemble_taxe_absent)
    ultimately show ?thesis by simp
  qed
  from same inert fills show ?thesis by blast
qed

theorem taxe_fallback_only_fills_absent_witness:
  "(parse_ad_page [] [] [] (u ''Taxe fonci'' @ [200] @ u ''RE : 850 '' @ [EURO] @ u '' par an'') None
      = parse_ad_page_no_fallback [] [] []
          (u ''Taxe fonci'' @ [200] @ u ''RE : 850 '' @ [EURO] @ u '' par an'') None
    \<and> taxe_fonciere_annual
        (parse_ad_page [] [] []
           (u ''Taxe fonci'' @ [200] @ u ''RE : 850 '' @ [EURO] @ u '' par an'') None)
      = Some 850)
   \<and> (py_in (py_lower (u ''taxe fonci'' @ [E_GRAVE] @ u ''re''))
         (py_lower (combined_text []
            (u ''taxe fonci'' @ [E_GRAVE] @ u ''re non communiqu'' @ [233] @ u ''e'')))
      \<and> parse_ad_page [] [] []
          (u ''taxe fonci'' @ [E_GRAVE] @ u ''re non communiqu'' @ [233] @ u ''e'') None
        = parse_ad_page_no_fallback [] [] []
            (u ''taxe fonci'' @ [E_GRAVE] @ u ''re non communiqu'' @ [233] @ u ''e'') None)
   \<and> fst (parse_amounts_near_keyword (combined_text [] (u ''taxe fonciere non communiquee''))
           (u ''taxe fonci'' @ [E_GRAVE] @ u ''re'') True) = None
   \<and> (parse_amounts_near_keyword
         (combined_text []
            (u ''taxe fonciere 1,234,56 '' @ [EURO] @ u '' - taxe fonci'' @ [E_GRAVE]
             @ u ''re 800 '' @ [EURO]))
         (u ''taxe fonci'') True
        = (None,
           Some (combined_text []
             (u ''taxe fonciere 1,234,56 '' @ [EURO] @ u '' - taxe fonci'' @ [E_GRAVE]
              @ u ''re 800 '' @ [EURO])))
      \<and> taxe_fonciere_annual
          (parse_ad_page [] [] []
             (u ''taxe fonciere 1,234,56 '' @ [EURO] @ u '' - taxe fonci'' @ [E_GRAVE]
              @ u ''re 800 '' @ [EURO]) None)
        = Some 800
      \<and> taxe_fonciere_annual
          (parse_ad_page_no_fallback [] [] []
             (u ''taxe fonciere 1,234,56 '' @ [EURO] @ u '' - taxe fonci'' @ [E_GRAVE]
              @ u ''re 800 '' @ [EURO]) None)
        = None)"
proof -
  let ?A = "u ''Taxe fonci'' @ [200] @ u ''RE : 850 '' @ [EURO] @ u '' par an''"
  let ?B = "u ''taxe fonci'' @ [E_GRAVE] @ u ''re non communiqu'' @ [233] @ u ''e''"
  let ?C = "u ''taxe fonciere non communiquee''"
  let ?N = "u ''taxe fonciere 1,234,56 '' @ [EURO] @ u '' - taxe fonci'' @ [E_GRAVE]
            @ u ''re 800 '' @ [EURO]"
  let ?kw = "u ''taxe fonci'' @ [E_GRAVE] @ u ''re''"
  have "fst (parse_amounts_near_keyword (combined_text [] ?A) (u ''taxe fonci'') True) \<noteq> None"
    by code_simp
  then have a: "parse_ad_page [] [] [] ?A None = parse_ad_page_no_fallback [] [] [] ?A None"
    by (intro taxe_fallback_only_fills_absent [THEN conjunct1, THEN mp] disjI1)
  have a': "taxe_fonciere_annual (parse_ad_page [] [] [] ?A None) = Some 850"
    by code_simp
  have b': "py_in (py_lower ?kw) (py_lower (combined_text [] ?B))"
    by code_simp
  have "fst (parse_amounts_near_keyword (combined_text [] ?B) ?kw True) = None"
    by code_simp
  then have b: "parse_ad_page [] [] [] ?B None = parse_ad_page_no_fallback [] [] [] ?B None"
    by (intro taxe_fallback_only_fills_absent [THEN conjunct1, THEN mp] disjI2)
  have "\<not> py_in (py_lower ?kw) (py_lower (combined_text [] ?C))"
    by code_simp
  then have c: "fst (parse_amounts_near_keyword (combined_text [] ?C) ?kw True) = None"
    by (intro taxe_fallback_only_fills_absent [THEN conjunct2, THEN conjunct1, THEN mp])
  have n1: "parse_amounts_near_keyword (combined_text [] ?N) (u ''taxe fonci'') True
      = (None, Some (combined_text [] ?N))"
    by code_simp
  have n2: "parse_amounts_near_keyword (combined_text [] ?N) ?kw True
      = (Some 800, Some (u ''taxe fonci'' @ [E_GRAVE] @ u ''re 800 '' @ [EURO]))"
    by code_simp
  have n3: "Some (py_round2
        (if detect_period_from_snippet
              (case Some (u ''taxe fonci'' @ [E_GRAVE] @ u ''re 800 '' @ [EURO]) of
                 None \<Rightarrow> [] | Some s \<Rightarrow> s) = Some Monthly
         then 800 * 12 else 800)) = Some 800"
    by code_simp
  from n1 n2 have "fst (parse_amounts_near_keyword (combined_text [] ?N) (u ''taxe fonci'') True) = None
      \<and> parse_amounts_near_keyword (combined_text [] ?N) ?kw True
          = (Some 800, Some (u ''taxe fonci'' @ [E_GRAVE] @ u ''re 800 '' @ [EURO]))"
    by simp
  then have "taxe_fonciere_annual (parse_ad_page [] [] [] ?N None)
      = Some (py_round2
        (if detect_period_from_snippet
              (case Some (u ''taxe fonci'' @ [E_GRAVE] @ u ''re 800 '' @ [EURO]) of
                 None \<Rightarrow> [] | Some s \<Rightarrow> s) = Some Monthly
         then 800 * 12 else 800))"
    by (intro taxe_fallback_only_fills_absent
          [THEN conjunct2, THEN conjunct2, THEN mp, THEN conjunct1])
  with n3 have n: "taxe_fonciere_annual (parse_ad_page [] [] [] ?N None) = Some 800"
    by (simp only:)
  have n': "taxe_fonciere_annual (parse_ad_page_no_fallback [] [] [] ?N None) = None"
    by code_simp
  from a a' b b' c n1 n n' show ?thesis
    by (simp only: simp_thms)
qed

text \<open>
  C10 as stated fails: with the amount 45 characters after "taxe fonci\`ere", its euro
  sign lies outside the window of the search on "taxe fonci" (50 characters past the
  tenth character) and inside the window of the fallback (50 past the thirteenth).
\<close>

theorem taxe_fallback_changes_result:
  "taxe_fonciere_annual
     (parse_ad_page [] [] []
        (u ''taxe fonci'' @ [E_GRAVE] @ u ''re'' @ replicate 45 32 @ u ''800 '' @ [EURO]) None)
     = Some 800
   \<and> taxe_fonciere_annual
       (parse_ad_page_no_fallback [] [] []
          (u ''taxe fonci'' @ [E_GRAVE] @ u ''re'' @ replicate 45 32 @ u ''800 '' @ [EURO]) None)
     = None"
  by code_simp

subsection \<open>The rent cascade\<close>

lemma annual_ok_accept:
  "(if annual_ok v then map_option (\<lambda>x. x / 12) v else None) = accept_annual v"
  by (auto simp: annual_ok_def accept_annual_def split: option.splits)

lemma monthly_ok_accept:
  "(if monthly_ok v then v else None) = accept_monthly v"
  by (auto simp: monthly_ok_def accept_monthly_def split: option.splits)

lemma parse_amount_empty: "parse_amount [] = None"
  by code_simp

lemma rent_block1:
  "(case re_search True False RENT1 text of
      None \<Rightarrow> None
    | Some m \<Rightarrow> (let loyer = parse_amount (group1 m)
                in if annual_ok loyer then map_option (\<lambda>v. v / 12) loyer else None))
   = rule_value text (RENT1, False, PerYear)"
  by (auto simp: rule_value_def annual_ok_def accept_annual_def Let_def split: option.splits)

lemma rent_block2:
  "(if mr = None then
      (case re_search True False RENT2 text of
         None \<Rightarrow> mr
       | Some m \<Rightarrow> (let monthly_rent = parse_amount (group1 m)
                   in if monthly_ok monthly_rent then monthly_rent else None))
    else mr)
   = (case mr of None \<Rightarrow> rule_value text (RENT2, False, PerMonth) | Some x \<Rightarrow> Some x)"
  by (cases mr)
     (auto simp: rule_value_def annual_ok_def monthly_ok_def accept_annual_def accept_monthly_def
        Let_def split: option.splits)

lemma rent_block3:
  "(if mr = None then
      (case re_search True False RENT3 text of
         None \<Rightarrow> mr
       | Some m \<Rightarrow> (let loyer = parse_amount (group1 m)
                   in if annual_ok loyer then map_option (\<lambda>v. v / 12) loyer else mr))
    else mr)
   = (case mr of None \<Rightarrow> rule_value text (RENT3, False, PerYear) | Some x \<Rightarrow> Some x)"
  by (cases mr)
     (auto simp: rule_value_def annual_ok_def monthly_ok_def accept_annual_def accept_monthly_def
        Let_def split: option.splits)

lemma rent_block4:
  "(if mr = None then
      (case re_search True False RENT4 text of
         None \<Rightarrow> mr
       | Some m \<Rightarrow>
           (let loyer = parse_amount (group1 m);
                snippet = py_lower (slice text (m_start m) (min (length text) (m_end m + 100)))
            in if py_in (u ''annuel'') snippet \<or> py_in (u ''par an'') snippet
                  \<or> py_in (u ''/an'') snippet
               then (if annual_ok loyer then map_option (\<lambda>v. v / 12) loyer else mr)
               else (if monthly_ok loyer then loyer else mr)))
    else mr)
   = (case mr of None \<Rightarrow> rule_value text (RENT4, False, BySnippet) | Some x \<Rightarrow> Some x)"
  by (cases mr)
     (auto simp: rule_value_def annual_ok_def monthly_ok_def accept_annual_def accept_monthly_def
        Let_def split: option.splits)

lemma rent_block5:
  "(if mr = None then
      (case re_search True False RENT5 text of
         None \<Rightarrow> mr
       | Some m \<Rightarrow> (let loyer = parse_amount (group1 m)
                   in if monthly_ok loyer then loyer else mr))
    else mr)
   = (case mr of None \<Rightarrow> rule_value text (RENT5, False, PerMonth) | Some x \<Rightarrow> Some x)"
  by (cases mr)
     (auto simp: rule_value_def annual_ok_def monthly_ok_def accept_annual_def accept_monthly_def
        Let_def split: option.splits)

lemma rent_block6:
  "(if mr = None then
      (case re_search True True RENT6 text of
         None \<Rightarrow> mr
       | Some m \<Rightarrow>
           (if group1 m \<noteq> [] then
              (let monthly_rent = parse_amount (group1 m)
               in if monthly_ok monthly_rent then monthly_rent else None)
            else mr))
    else mr)
   = (case mr of None \<Rightarrow> rule_value text (RENT6, True, PerMonth) | Some x \<Rightarrow> Some x)"
  by (cases mr)
     (auto simp: rule_value_def annual_ok_def monthly_ok_def accept_annual_def accept_monthly_def
        Let_def parse_amount_empty split: option.splits)

lemma extract_rent_chain:
  "extract_rent text =
     (case rule_value text (RENT1, False, PerYear) of Some x \<Rightarrow> Some x | None \<Rightarrow>
      case rule_value text (RENT2, False, PerMonth) of Some x \<Rightarrow> Some x | None \<Rightarrow>
      case rule_value text (RENT3, False, PerYear) of Some x \<Rightarrow> Some x | None \<Rightarrow>
      case rule_value text (RENT4, False, BySnippet) of Some x \<Rightarrow> Some x | None \<Rightarrow>
      case rule_value text (RENT5, False, PerMonth) of Some x \<Rightarrow> Some x | None \<Rightarrow>
      rule_value text (RENT6, True, PerMonth))"
proof -
  have "extract_rent text =
     (let mr = rule_value text (RENT1, False, PerYear);
          mr = (case mr of None \<Rightarrow> rule_value text (RENT2, False, PerMonth) | Some x \<Rightarrow> Some x);
          mr = (case mr of None \<Rightarrow> rule_value text (RENT3, False, PerYear) | Some x \<Rightarrow> Some x);
          mr = (case mr of None \<Rightarrow> rule_value text (RENT4, False, BySnippet) | Some x \<Rightarrow> Some x);
          mr = (case mr of None \<Rightarrow> rule_value text (RENT5, False, PerMonth) | Some x \<Rightarrow> Some x);
          mr = (case mr of None \<Rightarrow> rule_value text (RENT6, True, PerMonth) | Some x \<Rightarrow> Some x)
      in mr)"
    unfolding extract_rent_def
    by (simp only: rent_block1 rent_block2 rent_block3 rent_block4 rent_block5 rent_block6)
  then show ?thesis
    by (simp add: Let_def split: option.splits)
qed

lemma first_passing_single: "first_passing [v] = v"
  by (cases v) simp_all

lemma extract_rent_cascade: "extract_rent text = rent_cascade_spec text"
  unfolding rent_cascade_spec_def rent_rules_def extract_rent_chain
  by (simp add: first_passing_single split: option.splits)

lemma rule_value_range:
  assumes "rule_value text rule = Some m"
  shows "300 \<le> m \<and> m \<le> 3000"
proof -
  have a: "accept_annual v = Some m \<Longrightarrow> 300 \<le> m \<and> m \<le> 3000" for v
    by (auto simp: accept_annual_def split: option.splits if_splits)
  have b: "accept_monthly v = Some m \<Longrightarrow> 300 \<le> m \<and> m \<le> 3000" for v
    by (auto simp: accept_monthly_def split: option.splits if_splits)
  from assms show ?thesis
    by (auto simp: rule_value_def Let_def split: prod.splits option.splits rent_unit.splits
        if_splits dest: a b)
qed

lemma first_passing_mem: "first_passing vs = Some m \<Longrightarrow> Some m \<in> set vs"
  by (induction vs rule: first_passing.induct) auto


lemma extract_rent_range:
  assumes "extract_rent text = Some m"
  shows "300 \<le> m \<and> m \<le> 3000"
proof -
  from assms have "Some m \<in> set (map (rule_value text) rent_rules)"
    unfolding extract_rent_cascade rent_cascade_spec_def by (rule first_passing_mem)
  then obtain rule where "rule_value text rule = Some m"
    by auto
  then show ?thesis
    by (rule rule_value_range)
qed



subsection \<open>Rounding to two decimals\<close>

lemma round_half_even_cases:
  "round_half_even y = \<lfloor>y\<rfloor> \<and> y - of_int \<lfloor>y\<rfloor> \<le> 1 / 2
   \<or> round_half_even y = \<lfloor>y\<rfloor> + 1 \<and> 1 / 2 \<le> y - of_int \<lfloor>y\<rfloor>"
  by (auto simp: round_half_even_def Let_def)

lemma round_half_even_le:
  assumes "y \<le> of_int k"
  shows "round_half_even y \<le> k"
proof -
  from assms have fl: "\<lfloor>y\<rfloor> \<le> k"
    by (simp add: floor_le_iff)
  show ?thesis
  proof (cases "\<lfloor>y\<rfloor> = k")
    case True
    with assms have "y = of_int \<lfloor>y\<rfloor>"
      by (metis of_int_floor_le order_antisym)
    then have "y - of_int \<lfloor>y\<rfloor> < 1 / 2"
      by simp
    then have "round_half_even y = \<lfloor>y\<rfloor>"
      by (simp add: round_half_even_def Let_def)
    with True show ?thesis by simp
  next
    case False
    with fl have "\<lfloor>y\<rfloor> + 1 \<le> k" by simp
    with round_half_even_cases [of y] show ?thesis by auto
  qed
qed

lemma round_half_even_ge:
  assumes "of_int k \<le> y"
  shows "k \<le> round_half_even y"
proof -
  from assms have "k \<le> \<lfloor>y\<rfloor>"
    by (simp add: le_floor_iff)
  with round_half_even_cases [of y] show ?thesis by auto
qed


lemma py_round2_le:
  assumes "x \<le> of_int k"
  shows "py_round2 x \<le> of_int k"
proof -
  from assms have "x * 100 \<le> of_int (k * 100)" by simp
  then have "round_half_even (x * 100) \<le> k * 100"
    by (rule round_half_even_le)
  then have "(of_int (round_half_even (x * 100)) :: rat) \<le> of_int (k * 100)"
    by (simp only: of_int_le_iff)
  then show ?thesis
    by (simp add: py_round2_def)
qed

lemma py_round2_ge:
  assumes "of_int k \<le> x"
  shows "of_int k \<le> py_round2 x"
proof -
  from assms have "of_int (k * 100) \<le> x * 100" by simp
  then have "k * 100 \<le> round_half_even (x * 100)"
    by (rule round_half_even_ge)
  then have "(of_int (k * 100) :: rat) \<le> of_int (round_half_even (x * 100))"
    by (simp only: of_int_le_iff)
  then show ?thesis
    by (simp add: py_round2_def)
qed


lemma py_round2_zero: "py_round2 0 = 0"
  by (simp add: py_round2_def round_half_even_def)

lemma py_round2_pos: "0 < py_round2 x \<Longrightarrow> 0 < x"
  using py_round2_le [of x 0] by (cases "0 < x") simp_all


subsection \<open>The fields of the assembled record\<close>

lemma assemble_price: "price (assemble url0 title0 p mr0 tx ch) = map_option py_round2 p"
  by (simp add: assemble_def Let_def split: prod.splits)

lemma assemble_rejected:
  assumes "p = Some pv" and "mr0 = Some m" and "20 < m * 12 / pv * 100"
  shows "monthly_rent (assemble url0 title0 p mr0 tx ch) = None"
    and "annual_rent (assemble url0 title0 p mr0 tx ch) = None"
    and "gross_yield_pct (assemble url0 title0 p mr0 tx ch) = None"
    and "net_yield_pct (assemble url0 title0 p mr0 tx ch) = None"
proof -
  from assms(3) have "pv \<noteq> 0" and "m \<noteq> 0"
    by (auto simp: not_less)
  with assms show "monthly_rent (assemble url0 title0 p mr0 tx ch) = None"
    and "annual_rent (assemble url0 title0 p mr0 tx ch) = None"
    and "gross_yield_pct (assemble url0 title0 p mr0 tx ch) = None"
    and "net_yield_pct (assemble url0 title0 p mr0 tx ch) = None"
    by (simp_all add: assemble_def yield_block_def Let_def split: prod.splits)
qed

lemma assemble_rent:
  assumes "monthly_rent (assemble url0 title0 p mr0 tx ch) = Some x
           \<or> annual_rent (assemble url0 title0 p mr0 tx ch) = Some y"
  shows "\<exists>m. mr0 = Some m
           \<and> monthly_rent (assemble url0 title0 p mr0 tx ch) = Some (py_round2 m)
           \<and> annual_rent (assemble url0 title0 p mr0 tx ch) = Some (py_round2 (m * 12))
           \<and> (\<forall>pv. p = Some pv \<and> pv \<noteq> 0 \<and> m \<noteq> 0 \<longrightarrow> m * 12 / pv * 100 \<le> 20)"
  using assms
  by (auto simp: assemble_def yield_block_def Let_def split: prod.splits option.splits if_splits)


lemma assemble_gross:
  assumes "gross_yield_pct (assemble url0 title0 p mr0 tx ch) = Some g"
  shows "\<exists>pv m. p = Some pv \<and> mr0 = Some m \<and> pv \<noteq> 0 \<and> m \<noteq> 0 \<and> m * 12 / pv * 100 \<le> 20
           \<and> g = py_round2 (m * 12 / pv * 100)"
  using assms
  by (auto simp: assemble_def yield_block_def Let_def split: prod.splits option.splits if_splits)

lemma assemble_gross_present:
  assumes "p = Some pv" and "pv \<noteq> 0" and "mr0 = Some m" and "m \<noteq> 0"
    and "m * 12 / pv * 100 \<le> 20"
  shows "gross_yield_pct (assemble url0 title0 p mr0 tx ch) = Some (py_round2 (m * 12 / pv * 100))"
  using assms
  by (simp add: assemble_def yield_block_def Let_def split: prod.splits)


subsection \<open>Yields and derived amounts of the parsed page\<close>

text \<open>
  C1 (as the code has it). If the returned record has a non-zero price and an annual
  rent, then the gross yield is present and at most 20; if moreover the price is
  positive, the gross yield is the rounding to two decimals of a yield g0 with
  0 < g0 <= 20, so that 0 <= gross_yield_pct <= 20 (a small positive yield rounds to
  0.0). No returned record has a gross yield above 20.
\<close>

theorem gross_yield_bounds:
  "(price (parse_ad_page url0 title0 body_text text json_price) = Some p \<and> p \<noteq> 0
      \<and> annual_rent (parse_ad_page url0 title0 body_text text json_price) = Some a
    \<longrightarrow> (\<exists>g0. g0 \<le> 20
            \<and> gross_yield_pct (parse_ad_page url0 title0 body_text text json_price)
                = Some (py_round2 g0)
            \<and> py_round2 g0 \<le> 20
            \<and> (0 < p \<longrightarrow> 0 < g0 \<and> 0 \<le> py_round2 g0)))
   \<and> (gross_yield_pct (parse_ad_page url0 title0 body_text text json_price) = Some g
        \<longrightarrow> g \<le> 20)"
proof (intro conjI impI)
  let ?ct = "combined_text body_text text"
  let ?r = "parse_ad_page url0 title0 body_text text json_price"
  have r: "?r = assemble url0 title0 (extract_price json_price ?ct) (extract_rent ?ct)
                  (extract_taxe ?ct) (extract_charges ?ct)"
    by (simp add: parse_ad_page_def Let_def)
  {
    assume h: "price ?r = Some p \<and> p \<noteq> 0 \<and> annual_rent ?r = Some a"
    then obtain pv where pv: "extract_price json_price ?ct = Some pv" and p: "py_round2 pv = p"
      unfolding r assemble_price by auto
    with h have nz: "pv \<noteq> 0"
      using py_round2_zero by auto
    from h obtain m where m: "extract_rent ?ct = Some m"
      and le: "\<forall>pv. extract_price json_price ?ct = Some pv \<and> pv \<noteq> 0 \<and> m \<noteq> 0
                 \<longrightarrow> m * 12 / pv * 100 \<le> 20"
      unfolding r using assemble_rent [where y = a] by blast
    from m have range: "300 \<le> m \<and> m \<le> 3000"
      by (rule extract_rent_range)
    define g0 where "g0 = m * 12 / pv * 100"
    from le pv nz range have g0_le: "g0 \<le> 20"
      by (simp add: g0_def)
    from pv nz m range g0_le have gross: "gross_yield_pct ?r = Some (py_round2 g0)"
      unfolding r g0_def by (intro assemble_gross_present) simp_all
    from g0_le have round_le: "py_round2 g0 \<le> 20"
      using py_round2_le [of g0 20] by simp
    have "0 < g0 \<and> 0 \<le> py_round2 g0" if "0 < p"
    proof -
      from that p have "0 < pv"
        using py_round2_pos by blast
      with range have "0 < g0"
        by (simp add: g0_def)
      then show ?thesis
        using py_round2_ge [of 0 g0] by simp
    qed
    with g0_le gross round_le
    show "\<exists>g0. g0 \<le> 20 \<and> gross_yield_pct ?r = Some (py_round2 g0) \<and> py_round2 g0 \<le> 20
            \<and> (0 < p \<longrightarrow> 0 < g0 \<and> 0 \<le> py_round2 g0)"
      by blast
  }
  {
    assume "gross_yield_pct ?r = Some g"
    then obtain g0 where "g0 \<le> 20" and "g = py_round2 g0"
      unfolding r using assemble_gross by blast
    then show "g \<le> 20"
      using py_round2_le [of g0 20] by simp
  }
qed

theorem gross_yield_bounds_witness:
  "price (parse_ad_page [] [] []
            (u ''Prix de vente : 150 000 '' @ [EURO] @ u '' Loyer annuel : 9 600 '' @ [EURO]) None)
     = Some 150000
   \<and> annual_rent (parse_ad_page [] [] []
            (u ''Prix de vente : 150 000 '' @ [EURO] @ u '' Loyer annuel : 9 600 '' @ [EURO]) None)
     = Some 9600
   \<and> gross_yield_pct (parse_ad_page [] [] []
            (u ''Prix de vente : 150 000 '' @ [EURO] @ u '' Loyer annuel : 9 600 '' @ [EURO]) None)
     = Some 6.4
   \<and> (\<exists>g0. 0 < g0 \<and> g0 \<le> 20 \<and> 6.4 = py_round2 g0)"
proof -
  let ?r = "parse_ad_page [] [] []
            (u ''Prix de vente : 150 000 '' @ [EURO] @ u '' Loyer annuel : 9 600 '' @ [EURO]) None"
  have pr: "price ?r = Some 150000" and ar: "annual_rent ?r = Some 9600"
    and gr: "gross_yield_pct ?r = Some 6.4"
    by code_simp+
  have "price ?r = Some 150000 \<and> (150000 :: rat) \<noteq> 0 \<and> annual_rent ?r = Some 9600"
    using pr ar by simp
  with gross_yield_bounds
    [of "[]" "[]" "[]"
        "u ''Prix de vente : 150 000 '' @ [EURO] @ u '' Loyer annuel : 9 600 '' @ [EURO]"
        None 150000 9600]
  obtain g0 where "g0 \<le> 20" and "gross_yield_pct ?r = Some (py_round2 g0)"
    and "(0 :: rat) < 150000 \<longrightarrow> 0 < g0 \<and> 0 \<le> py_round2 g0"
    by blast
  with gr have "0 < g0 \<and> g0 \<le> 20 \<and> 6.4 = py_round2 g0"
    by simp
  with pr ar gr show ?thesis
    by blast
qed

text \<open>
  C1 as stated fails. A price of 0 is present but falsy, so no yield is computed
  although price and annual rent are present; a positive yield below 0.005 is rounded
  to 0.0, which is not above 0; and a negative price taken from the page's JSON data
  gives a negative yield.
\<close>

theorem gross_yield_absent_or_not_positive:
  "price (parse_ad_page [] [] [] (u ''vente 0 '' @ [EURO] @ u '' loyer 500 '' @ [EURO]) None)
     = Some 0
   \<and> annual_rent (parse_ad_page [] [] [] (u ''vente 0 '' @ [EURO] @ u '' loyer 500 '' @ [EURO]) None)
     = Some 6000
   \<and> gross_yield_pct (parse_ad_page [] [] [] (u ''vente 0 '' @ [EURO] @ u '' loyer 500 '' @ [EURO]) None)
     = None
   \<and> price (parse_ad_page [] [] []
        (u ''prix 100 000 000 '' @ [EURO] @ u '' loyer 300 '' @ [EURO]) None)
     = Some 100000000
   \<and> annual_rent (parse_ad_page [] [] []
        (u ''prix 100 000 000 '' @ [EURO] @ u '' loyer 300 '' @ [EURO]) None)
     = Some 3600
   \<and> gross_yield_pct (parse_ad_page [] [] []
        (u ''prix 100 000 000 '' @ [EURO] @ u '' loyer 300 '' @ [EURO]) None)
     = Some 0
   \<and> annual_rent (parse_ad_page [] [] [] (u ''loyer 500 '' @ [EURO]) (Some (- 100000)))
     = Some 6000
   \<and> gross_yield_pct (parse_ad_page [] [] [] (u ''loyer 500 '' @ [EURO]) (Some (- 100000)))
     = Some (- 6)"
  by code_simp

text \<open>
  C2. When a price and a rent are both extracted and the gross yield computed from
  them exceeds 20, the returned record has monthly rent, annual rent, gross yield and
  net yield all absent. The record is returned as usual, with its price; nothing is
  capped.
\<close>

theorem implausible_yield_rejected:
  assumes "extract_price json_price (combined_text body_text text) = Some p"
    and "extract_rent (combined_text body_text text) = Some m"
    and "20 < m * 12 / p * 100"
  shows "monthly_rent (parse_ad_page url0 title0 body_text text json_price) = None
       \<and> annual_rent (parse_ad_page url0 title0 body_text text json_price) = None
       \<and> gross_yield_pct (parse_ad_page url0 title0 body_text text json_price) = None
       \<and> net_yield_pct (parse_ad_page url0 title0 body_text text json_price) = None
       \<and> price (parse_ad_page url0 title0 body_text text json_price) = Some (py_round2 p)"
  using assemble_rejected [OF assms] assms(1)
  by (simp add: parse_ad_page_def Let_def assemble_price)

theorem implausible_yield_rejected_witness:
  "extract_price None (combined_text [] (u ''prix 10 000 '' @ [EURO] @ u '' loyer 500 '' @ [EURO]))
     = Some 10000
   \<and> extract_rent (combined_text [] (u ''prix 10 000 '' @ [EURO] @ u '' loyer 500 '' @ [EURO]))
     = Some 500
   \<and> (20 :: rat) < 500 * 12 / 10000 * 100
   \<and> monthly_rent (parse_ad_page [] [] [] (u ''prix 10 000 '' @ [EURO] @ u '' loyer 500 '' @ [EURO]) None)
     = None
   \<and> annual_rent (parse_ad_page [] [] [] (u ''prix 10 000 '' @ [EURO] @ u '' loyer 500 '' @ [EURO]) None)
     = None
   \<and> gross_yield_pct (parse_ad_page [] [] [] (u ''prix 10 000 '' @ [EURO] @ u '' loyer 500 '' @ [EURO]) None)
     = None
   \<and> net_yield_pct (parse_ad_page [] [] [] (u ''prix 10 000 '' @ [EURO] @ u '' loyer 500 '' @ [EURO]) None)
     = None
   \<and> price (parse_ad_page [] [] [] (u ''prix 10 000 '' @ [EURO] @ u '' loyer 500 '' @ [EURO]) None)
     = Some 10000"
proof -
  have a: "extract_price None (combined_text [] (u ''prix 10 000 '' @ [EURO] @ u '' loyer 500 '' @ [EURO]))
     = Some 10000"
    by code_simp
  have b: "extract_rent (combined_text [] (u ''prix 10 000 '' @ [EURO] @ u '' loyer 500 '' @ [EURO]))
     = Some 500"
    by code_simp
  have c: "(20 :: rat) < 500 * 12 / 10000 * 100"
    by simp
  have d: "py_round2 10000 = 10000"
    by code_simp
  from implausible_yield_rejected [OF a b c, of "[]" "[]"] a b c d show ?thesis
    by simp
qed




subsection \<open>Extracted amounts are not negative\<close>

lemma digits_val_nonneg:
  assumes "list_all is_digit ds"
  shows "0 \<le> digits_val ds"
proof -
  have "0 \<le> a \<Longrightarrow> list_all is_digit ds \<Longrightarrow> 0 \<le> foldl (\<lambda>a c. 10 * a + (c - 48)) a ds" for a
    by (induction ds arbitrary: a) (auto simp: is_digit_def)
  with assms show ?thesis
    by (simp add: digits_val_def)
qed

lemma fraction_digits:
  assumes "list_all (\<lambda>c. is_digit c \<or> c = 46) v" and "length (filter (\<lambda>c. c = 46) v) \<le> 1"
  shows "list_all is_digit (drop 1 (dropWhile is_digit v))"
  using assms
proof (induction v)
  case Nil
  show ?case by simp
next
  case (Cons c v)
  show ?case
  proof (cases "is_digit c")
    case True
    with Cons show ?thesis
      by (auto simp: is_digit_def)
  next
    case False
    with Cons.prems have c: "c = 46" and "filter (\<lambda>c. c = 46) v = []"
      by auto
    with Cons.prems have "list_all is_digit v"
      by (auto simp: list_all_iff filter_empty_conv)
    with False show ?thesis by simp
  qed
qed

lemma py_float_nonneg:
  assumes "py_float v = Some x"
  shows "0 \<le> x"
proof -
  from assms have ok: "list_all (\<lambda>c. is_digit c \<or> c = 46) v"
    "length (filter (\<lambda>c. c = 46) v) \<le> 1"
    and x: "x = of_int (digits_val (takeWhile is_digit v))
              + of_int (digits_val (drop 1 (dropWhile is_digit v)))
                / 10 ^ length (drop 1 (dropWhile is_digit v))"
    by (auto simp: py_float_def Let_def split: if_splits)
  have "list_all is_digit (takeWhile is_digit v)"
    by (auto simp: list_all_iff dest: set_takeWhileD)
  then have a: "0 \<le> digits_val (takeWhile is_digit v)"
    by (rule digits_val_nonneg)
  have b: "0 \<le> digits_val (drop 1 (dropWhile is_digit v))"
    using ok by (intro digits_val_nonneg fraction_digits)
  from a b show ?thesis
    unfolding x by simp
qed

lemma parse_amount_nonneg:
  assumes "parse_amount raw = Some x"
  shows "0 \<le> x"
proof -
  obtain w where "parse_amount raw = py_float w"
    by (simp add: parse_amount_def Let_def)
  with assms show ?thesis
    using py_float_nonneg by simp
qed

lemma near_keyword_loop_nonneg:
  "fst (near_keyword_loop t kw strict start) = Some x \<Longrightarrow> 0 \<le> x"
proof (induction t kw strict start rule: near_keyword_loop.induct)
  case (1 t kw strict start)
  show ?case
  proof (cases "py_find (py_lower t) (py_lower kw) start")
    case None
    with "1.prems" show ?thesis
      by (subst (asm) near_keyword_loop.simps) simp
  next
    case (Some idx)
    show ?thesis
    proof (cases "re_search False False AMOUNT_RE (drop (length kw) (search_snippet t kw strict idx))")
      case None
      with Some "1.prems" have "fst (near_keyword_loop t kw strict (idx + 1)) = Some x"
        by (subst (asm) near_keyword_loop.simps) simp
      with "1.IH" [OF Some refl None] show ?thesis .
    next
      case (Some m)
      with \<open>py_find (py_lower t) (py_lower kw) start = Some idx\<close> "1.prems"
      have "parse_amount (group1 m) = Some x"
        by (subst (asm) near_keyword_loop.simps) simp
      then show ?thesis
        by (rule parse_amount_nonneg)
    qed
  qed
qed

lemma near_keyword_nonneg:
  "fst (parse_amounts_near_keyword t kw strict) = Some x \<Longrightarrow> 0 \<le> x"
  unfolding parse_amounts_near_keyword_def by (rule near_keyword_loop_nonneg)

lemma price_keyword_loop_nonneg:
  assumes "price_keyword_loop t kws cur = Some x" and "\<forall>v. cur = Some v \<longrightarrow> 0 \<le> v"
  shows "0 \<le> x"
  using assms
proof (induction kws arbitrary: cur)
  case Nil
  then show ?case by simp
next
  case (Cons kw kws)
  let ?p = "fst (parse_amounts_near_keyword t kw False)"
  have p: "\<forall>v. ?p = Some v \<longrightarrow> 0 \<le> v"
    using near_keyword_nonneg by blast
  show ?case
  proof (cases "truthy ?p")
    case True
    with Cons.prems(1) have "?p = Some x"
      by (simp add: Let_def)
    with p show ?thesis by blast
  next
    case False
    with Cons.prems(1) have "price_keyword_loop t kws ?p = Some x"
      by (simp add: Let_def)
    then show ?thesis
      using p by (rule Cons.IH)
  qed
qed

lemma fold_max_ge: "(a :: rat) \<le> fold max xs a"
proof (induction xs arbitrary: a)
  case Nil
  show ?case by simp
next
  case (Cons y xs)
  have "a \<le> max y a" by simp
  also have "\<dots> \<le> fold max xs (max y a)" by (rule Cons.IH)
  finally show ?case by simp
qed

lemma large_amounts_large: "a \<in> set (large_amounts t) \<Longrightarrow> 10000 < a"
  by (auto simp: large_amounts_def map_filter_def split: option.splits if_splits)

lemma extract_price_nonneg:
  assumes "extract_price json_price t = Some x" and "\<forall>v. json_price = Some v \<longrightarrow> 0 \<le> v"
  shows "0 \<le> x"
proof (cases json_price)
  case (Some v)
  with assms show ?thesis
    by (simp add: extract_price_def)
next
  case None
  let ?k = "price_keyword_loop t [u ''prix de vente'', u ''prix'', u ''vente''] None"
  show ?thesis
  proof (cases ?k)
    case (Some y)
    with None assms(1) have "?k = Some x"
      by (simp add: extract_price_def Let_def)
    then show ?thesis
      by (rule price_keyword_loop_nonneg) simp
  next
    case k: None
    with None assms(1) obtain a as where l: "large_amounts t = a # as" and x: "x = fold max as a"
      by (auto simp: extract_price_def Let_def split: list.splits)
    from l have "10000 < a"
      using large_amounts_large [of a t] by simp
    with fold_max_ge [of a as] x show ?thesis
      by simp
  qed
qed

lemma extract_taxe_nonneg:
  assumes "fst (extract_taxe t) = Some x"
  shows "0 \<le> x"
proof (cases "fst (parse_amounts_near_keyword t (u ''taxe fonci'') True) = None")
  case True
  with assms have "fst (parse_amounts_near_keyword t (u ''taxe fonci'' @ [E_GRAVE] @ u ''re'') True)
      = Some x"
    by (simp add: extract_taxe_def split: prod.splits)
  then show ?thesis
    by (rule near_keyword_nonneg)
next
  case False
  with assms have "fst (parse_amounts_near_keyword t (u ''taxe fonci'') True) = Some x"
    by (auto simp: extract_taxe_def split: prod.splits)
  then show ?thesis
    by (rule near_keyword_nonneg)
qed

lemma charges_keyword_loop_nonneg:
  assumes "fst (charges_keyword_loop t kws cur) = Some x" and "\<forall>v. fst cur = Some v \<longrightarrow> 0 \<le> v"
  shows "0 \<le> x"
  using assms
proof (induction kws arbitrary: cur)
  case Nil
  then show ?case by simp
next
  case (Cons kw kws)
  let ?r = "parse_amounts_near_keyword t kw True"
  have r: "\<forall>v. fst ?r = Some v \<longrightarrow> 0 \<le> v"
    using near_keyword_nonneg by blast
  show ?case
  proof (cases "fst ?r = None")
    case True
    with Cons.prems(1) have "fst (charges_keyword_loop t kws ?r) = Some x"
      by (simp add: Let_def)
    then show ?thesis
      using r by (rule Cons.IH)
  next
    case False
    with Cons.prems(1) have "fst ?r = Some x"
      by (simp add: Let_def)
    with r show ?thesis by blast
  qed
qed

lemma extract_charges_nonneg:
  assumes "fst (extract_charges t) = Some x"
  shows "0 \<le> x"
proof (cases "re_search True False CHARGES1 t")
  case (Some m)
  with assms show ?thesis
    using parse_amount_nonneg by (simp add: extract_charges_def)
next
  case None
  show ?thesis
  proof (cases "re_search True False CHARGES2 t")
    case (Some m)
    with None assms show ?thesis
      using parse_amount_nonneg by (simp add: extract_charges_def)
  next
    case n: None
    with None assms have "fst (charges_keyword_loop t
        [u ''charges locatives'', u ''charges mensuel'',
         u ''charge de copropri'' @ [233] @ u ''t'' @ [233], u ''charges annuelles'']
        (None, None)) = Some x"
      by (simp add: extract_charges_def del: charges_keyword_loop.simps)
    then show ?thesis
      by (rule charges_keyword_loop_nonneg) simp
  qed
qed

lemma py_round2_nonneg: "0 \<le> x \<Longrightarrow> 0 \<le> py_round2 x"
  using py_round2_ge [of 0 x] by simp

lemma yield_block_nonneg:
  assumes "yield_block p mr ar ac ta = (mr', ar', ac', ta', g, n)"
    and "\<forall>v. mr = Some v \<longrightarrow> 0 \<le> v" and "\<forall>v. ar = Some v \<longrightarrow> 0 \<le> v"
    and "\<forall>v. ac = Some v \<longrightarrow> 0 \<le> v" and "\<forall>v. ta = Some v \<longrightarrow> 0 \<le> v"
  shows "(\<forall>v. mr' = Some v \<longrightarrow> 0 \<le> v) \<and> (\<forall>v. ar' = Some v \<longrightarrow> 0 \<le> v)
       \<and> (\<forall>v. ac' = Some v \<longrightarrow> 0 \<le> v) \<and> (\<forall>v. ta' = Some v \<longrightarrow> 0 \<le> v)"
proof -
  from assms(1) have "(mr' = None \<or> mr' = mr) \<and> (ar' = None \<or> ar' = ar)
      \<and> (ac' = ac \<or> ac' = Some 0) \<and> (ta' = ta \<or> ta' = Some 0)"
    by (auto simp: yield_block_def Let_def split: option.splits if_splits)
  with assms(2-) show ?thesis
    by auto
qed

lemma assemble_nonneg:
  assumes p: "\<forall>v. p = Some v \<longrightarrow> 0 \<le> v"
    and mr: "\<forall>v. mr0 = Some v \<longrightarrow> 0 \<le> v"
    and tx: "\<forall>v. fst tx = Some v \<longrightarrow> 0 \<le> v"
    and ch: "\<forall>v. fst ch = Some v \<longrightarrow> 0 \<le> v"
  shows "(price (assemble url0 title0 p mr0 tx ch) = Some x \<longrightarrow> 0 \<le> x)
       \<and> (monthly_rent (assemble url0 title0 p mr0 tx ch) = Some x \<longrightarrow> 0 \<le> x)
       \<and> (annual_rent (assemble url0 title0 p mr0 tx ch) = Some x \<longrightarrow> 0 \<le> x)
       \<and> (monthly_charges (assemble url0 title0 p mr0 tx ch) = Some x \<longrightarrow> 0 \<le> x)
       \<and> (annual_charges (assemble url0 title0 p mr0 tx ch) = Some x \<longrightarrow> 0 \<le> x)
       \<and> (taxe_fonciere_annual (assemble url0 title0 p mr0 tx ch) = Some x \<longrightarrow> 0 \<le> x)"
proof -
  obtain mr ar ac ta g n where yb:
    "yield_block p mr0 (map_option (\<lambda>v. v * 12) mr0)
       (map_option (\<lambda>v. v * 12) (monthly_charges_of ch)) (taxe_annual_of tx)
       = (mr, ar, ac, ta, g, n)"
    by (metis prod_cases6)
  have mc_nn: "\<forall>v. monthly_charges_of ch = Some v \<longrightarrow> 0 \<le> v"
    using ch by (cases ch) (auto simp: monthly_charges_of_def split: option.splits if_splits)
  have ta0_nn: "\<forall>v. taxe_annual_of tx = Some v \<longrightarrow> 0 \<le> v"
    using tx by (cases tx) (auto simp: taxe_annual_of_def split: option.splits if_splits)
  have "(\<forall>v. mr = Some v \<longrightarrow> 0 \<le> v) \<and> (\<forall>v. ar = Some v \<longrightarrow> 0 \<le> v)
       \<and> (\<forall>v. ac = Some v \<longrightarrow> 0 \<le> v) \<and> (\<forall>v. ta = Some v \<longrightarrow> 0 \<le> v)"
    using yb
  proof (rule yield_block_nonneg)
    show "\<forall>v. mr0 = Some v \<longrightarrow> 0 \<le> v" by (rule mr)
    show "\<forall>v. map_option (\<lambda>v. v * 12) mr0 = Some v \<longrightarrow> 0 \<le> v"
      using mr by auto
    show "\<forall>v. map_option (\<lambda>v. v * 12) (monthly_charges_of ch) = Some v \<longrightarrow> 0 \<le> v"
      using mc_nn by auto
    show "\<forall>v. taxe_annual_of tx = Some v \<longrightarrow> 0 \<le> v" by (rule ta0_nn)
  qed
  moreover have "assemble url0 title0 p mr0 tx ch =
      \<lparr> url = url0, title = title0,
        price = map_option py_round2 p,
        monthly_rent = map_option py_round2 mr,
        annual_rent = map_option py_round2 ar,
        monthly_charges = map_option py_round2 (monthly_charges_of ch),
        annual_charges = map_option py_round2 ac,
        taxe_fonciere_annual = map_option py_round2 ta,
        gross_yield_pct = map_option py_round2 g,
        net_yield_pct = map_option py_round2 n \<rparr>"
    by (simp add: assemble_def Let_def yb)
  ultimately show ?thesis
    using p mc_nn by (auto simp: py_round2_nonneg)
qed

lemma assemble_monthly_charges_absent:
  "monthly_charges (assemble url0 title0 p mr0 tx ch) = None \<longleftrightarrow> fst ch = None"
proof -
  have "monthly_charges (assemble url0 title0 p mr0 tx ch)
      = map_option py_round2 (monthly_charges_of ch)"
    by (simp add: assemble_def Let_def split: prod.splits)
  moreover have "monthly_charges_of ch = None \<longleftrightarrow> fst ch = None"
  proof (cases ch)
    case (Pair charges charges_snip)
    then show ?thesis
      by (cases charges) (simp_all add: monthly_charges_of_def del: not_None_eq)
  qed
  ultimately show ?thesis by simp
qed

lemma assemble_no_rent:
  "monthly_rent (assemble url0 title0 p None tx ch) = None"
  "annual_rent (assemble url0 title0 p None tx ch) = None"
  by (simp_all add: assemble_def yield_block_def Let_def split: option.splits)

text \<open>Apart from the defaults stored by the yield block (see below), no amount of the
  record is negative, provided a price supplied by the JSON data of the page is not.\<close>

lemma monetary_fields_nonnegative:
  assumes "\<forall>v. json_price = Some v \<longrightarrow> 0 \<le> v"
  shows "(price (parse_ad_page url0 title0 body_text text json_price) = Some x \<longrightarrow> 0 \<le> x)
       \<and> (monthly_rent (parse_ad_page url0 title0 body_text text json_price) = Some x \<longrightarrow> 0 \<le> x)
       \<and> (annual_rent (parse_ad_page url0 title0 body_text text json_price) = Some x \<longrightarrow> 0 \<le> x)
       \<and> (monthly_charges (parse_ad_page url0 title0 body_text text json_price) = Some x
            \<longrightarrow> 0 \<le> x)
       \<and> (annual_charges (parse_ad_page url0 title0 body_text text json_price) = Some x
            \<longrightarrow> 0 \<le> x)
       \<and> (taxe_fonciere_annual (parse_ad_page url0 title0 body_text text json_price) = Some x
            \<longrightarrow> 0 \<le> x)"
proof -
  let ?ct = "combined_text body_text text"
  have r: "parse_ad_page url0 title0 body_text text json_price
      = assemble url0 title0 (extract_price json_price ?ct) (extract_rent ?ct)
          (extract_taxe ?ct) (extract_charges ?ct)"
    by (simp add: parse_ad_page_def Let_def)
  have p: "\<forall>v. extract_price json_price ?ct = Some v \<longrightarrow> 0 \<le> v"
    using assms extract_price_nonneg by blast
  have m: "\<forall>v. extract_rent ?ct = Some v \<longrightarrow> 0 \<le> v"
  proof (intro allI impI)
    fix v assume "extract_rent ?ct = Some v"
    then have "300 \<le> v \<and> v \<le> 3000"
      by (rule extract_rent_range)
    then show "0 \<le> v" by simp
  qed
  have t: "\<forall>v. fst (extract_taxe ?ct) = Some v \<longrightarrow> 0 \<le> v"
    using extract_taxe_nonneg by blast
  have c: "\<forall>v. fst (extract_charges ?ct) = Some v \<longrightarrow> 0 \<le> v"
    using extract_charges_nonneg by blast
  show ?thesis
    unfolding r by (rule assemble_nonneg [OF p m t c])
qed

lemma undetermined_fields_absent:
  "(price (parse_ad_page url0 title0 body_text text json_price) = None
      \<longleftrightarrow> extract_price json_price (combined_text body_text text) = None)
   \<and> (monthly_charges (parse_ad_page url0 title0 body_text text json_price) = None
      \<longleftrightarrow> fst (extract_charges (combined_text body_text text)) = None)
   \<and> (extract_rent (combined_text body_text text) = None
      \<longrightarrow> monthly_rent (parse_ad_page url0 title0 body_text text json_price) = None
          \<and> annual_rent (parse_ad_page url0 title0 body_text text json_price) = None)"
  by (simp add: parse_ad_page_def Let_def assemble_price assemble_monthly_charges_absent
      assemble_no_rent)

text \<open>
  C4, evaluated. In "prix 100 000 EUR loyer 500 EUR" neither charges nor a property tax
  can be determined (both searches yield nothing, and the monthly charges of the
  record are absent), yet the record reports annual charges 0 and property tax 0: the
  defaults set for the net yield are stored in the variables that are returned.
  Without a price the same fields are absent.
\<close>

theorem absent_charges_reported_as_zero:
  "extract_charges (u ''prix 100 000 '' @ [EURO] @ u '' loyer 500 '' @ [EURO]) = (None, None)
   \<and> extract_taxe (u ''prix 100 000 '' @ [EURO] @ u '' loyer 500 '' @ [EURO]) = (None, None)
   \<and> monthly_charges (parse_ad_page [] [] []
        (u ''prix 100 000 '' @ [EURO] @ u '' loyer 500 '' @ [EURO]) None) = None
   \<and> annual_charges (parse_ad_page [] [] []
        (u ''prix 100 000 '' @ [EURO] @ u '' loyer 500 '' @ [EURO]) None) = Some 0
   \<and> taxe_fonciere_annual (parse_ad_page [] [] []
        (u ''prix 100 000 '' @ [EURO] @ u '' loyer 500 '' @ [EURO]) None) = Some 0
   \<and> annual_charges (parse_ad_page [] [] [] (u ''loyer 500 '' @ [EURO]) None) = None
   \<and> taxe_fonciere_annual (parse_ad_page [] [] [] (u ''loyer 500 '' @ [EURO]) None) = None"
  by code_simp

end
